theory Spec2Isabelle
  imports Complex_Main "HOL-Library.Sublist" "HOL-Library.Multiset"
begin

section \<open>Python values used by \<^verbatim>\<open>todo.py\<close>\<close>

text \<open>
  The expense tracker is one Python script, \<^verbatim>\<open>src/todo.py\<close>. It keeps its records in the
  text file \<^verbatim>\<open>expenses.csv\<close> and talks to the user through \<^verbatim>\<open>input\<close> and \<^verbatim>\<open>print\<close>.
  This theory embeds the script function by function. What the script takes from Python's
  library (\<^verbatim>\<open>str.lower\<close>, \<^verbatim>\<open>str.capitalize\<close>, \<^verbatim>\<open>float\<close>, \<^verbatim>\<open>datetime.strptime\<close>,
  the \<^verbatim>\<open>csv\<close> module, \<^verbatim>\<open>sorted\<close>) is modelled after CPython's behaviour, under these
  limits, which every statement below inherits:
  \<^item> text is ASCII: one \<^typ>\<open>char\<close> is one code point and only the 26 letters have case;
  \<^item> a finite \<^verbatim>\<open>float\<close> is an exact rational: rounding, overflow and underflow of
    binary doubles are not modelled, the special values \<^verbatim>\<open>inf\<close>, \<^verbatim>\<open>-inf\<close> and
    \<^verbatim>\<open>nan\<close> are;
  \<^item> \<^verbatim>\<open>float\<close> does not accept digit groups separated by underscores;
  \<^item> the text \<^verbatim>\<open>str\<close> gives for a float, which the writer puts in the file, is a
    parameter \<open>str_float\<close> of the functions that write, and the two decimals that
    \<^verbatim>\<open>:.2f\<close> prints are not computed: a printed line keeps the float itself.

  The functions \<^verbatim>\<open>init_file\<close>, \<^verbatim>\<open>add_expense\<close>, \<^verbatim>\<open>view_expenses\<close>,
  \<^verbatim>\<open>search_expenses\<close> and \<^verbatim>\<open>get_monthly_summary\<close> are embedded; the menu loop
  \<^verbatim>\<open>main\<close>, which only dispatches to them, is not.
\<close>

subsection \<open>Strings\<close>

abbreviation LF :: char where "LF \<equiv> CHR 0x0A"
abbreviation CR :: char where "CR \<equiv> CHR 0x0D"

definition lower_char :: "char \<Rightarrow> char" where
  "lower_char c =
     (case map_of (zip ''ABCDEFGHIJKLMNOPQRSTUVWXYZ'' ''abcdefghijklmnopqrstuvwxyz'') c of
        None \<Rightarrow> c | Some d \<Rightarrow> d)"

definition upper_char :: "char \<Rightarrow> char" where
  "upper_char c =
     (case map_of (zip ''abcdefghijklmnopqrstuvwxyz'' ''ABCDEFGHIJKLMNOPQRSTUVWXYZ'') c of
        None \<Rightarrow> c | Some d \<Rightarrow> d)"

text \<open>\<^verbatim>\<open>str.lower()\<close>.\<close>

definition lower :: "string \<Rightarrow> string" where
  "lower s = map lower_char s"

text \<open>
  \<^verbatim>\<open>str.capitalize()\<close>: the first character upper-cased, every other character
  lower-cased.
\<close>

fun capitalize :: "string \<Rightarrow> string" where
  "capitalize [] = []"
| "capitalize (c # cs) = upper_char c # map lower_char cs"

text \<open>\<^verbatim>\<open>str.startswith(prefix)\<close>.\<close>

definition startswith :: "string \<Rightarrow> string \<Rightarrow> bool" where
  "startswith s p = prefix p s"

text \<open>The ASCII characters \<^verbatim>\<open>float\<close> strips as white space: the space and the
  controls 0x09 to 0x0D. (It does not strip the separators 0x1C to 0x1F.)\<close>

definition is_space :: "char \<Rightarrow> bool" where
  "is_space c = (c \<in> set [CHR '' '', CHR 0x09, CHR 0x0A, CHR 0x0B, CHR 0x0C, CHR 0x0D])"

definition strip :: "string \<Rightarrow> string" where
  "strip s = rev (dropWhile is_space (rev (dropWhile is_space s)))"

definition is_digit :: "char \<Rightarrow> bool" where
  "is_digit c = (c \<in> set ''0123456789'')"

definition digit_val :: "char \<Rightarrow> nat" where
  "digit_val c = (case map_of (zip ''0123456789'' [0, 1, 2, 3, 4, 5, 6, 7, 8, 9]) c of
                    None \<Rightarrow> 0 | Some d \<Rightarrow> d)"

definition nat_of_digits :: "string \<Rightarrow> nat" where
  "nat_of_digits ds = foldl (\<lambda>n c. 10 * n + digit_val c) 0 ds"

subsection \<open>Exceptions\<close>

datatype exn = EOFError | KeyError | AttributeError | TypeError | ValueError | CsvError

subsection \<open>Floats\<close>

datatype pyfloat = Finite rat | PInf | NInf | NaN

text \<open>\<^verbatim>\<open>a <= b\<close>, \<^verbatim>\<open>a < b\<close>, \<^verbatim>\<open>a == b\<close> and \<^verbatim>\<open>a + b\<close> on floats: every comparison with
  \<^verbatim>\<open>nan\<close> is false.\<close>

fun fle :: "pyfloat \<Rightarrow> pyfloat \<Rightarrow> bool" where
  "fle NaN b = False"
| "fle a NaN = False"
| "fle NInf b = True"
| "fle a PInf = True"
| "fle (Finite x) (Finite y) = (x \<le> y)"
| "fle a b = False"

fun flt :: "pyfloat \<Rightarrow> pyfloat \<Rightarrow> bool" where
  "flt NaN b = False"
| "flt a NaN = False"
| "flt (Finite x) (Finite y) = (x < y)"
| "flt NInf NInf = False"
| "flt PInf b = False"
| "flt NInf b = True"
| "flt a PInf = True"
| "flt a b = False"

fun feq :: "pyfloat \<Rightarrow> pyfloat \<Rightarrow> bool" where
  "feq NaN b = False"
| "feq a NaN = False"
| "feq a b = (a = b)"

fun fadd :: "pyfloat \<Rightarrow> pyfloat \<Rightarrow> pyfloat" where
  "fadd NaN b = NaN"
| "fadd a NaN = NaN"
| "fadd (Finite x) (Finite y) = Finite (x + y)"
| "fadd PInf NInf = NaN"
| "fadd NInf PInf = NaN"
| "fadd PInf b = PInf"
| "fadd a PInf = PInf"
| "fadd NInf b = NInf"
| "fadd a NInf = NInf"

text \<open>
  \<^verbatim>\<open>float(s)\<close> on a string; \<open>None\<close> is the \<^verbatim>\<open>ValueError\<close>. The text is stripped, an
  optional sign is read, then \<^verbatim>\<open>inf\<close>, \<^verbatim>\<open>infinity\<close> or \<^verbatim>\<open>nan\<close> in any casing, or a
  decimal number \<^verbatim>\<open>digits[.digits][e[sign]digits]\<close> with a digit on at least one side
  of the point.
\<close>

definition parse_exponent :: "string \<Rightarrow> int option" where
  "parse_exponent e =
     (let (neg, ds) = (case e of
                         [] \<Rightarrow> (False, [])
                       | c # r \<Rightarrow> if c = CHR ''-'' then (True, r)
                                  else if c = CHR ''+'' then (False, r) else (False, e))
      in if ds = [] \<or> \<not> list_all is_digit ds then None
         else Some (if neg then - int (nat_of_digits ds) else int (nat_of_digits ds)))"

definition parse_mantissa :: "string \<Rightarrow> rat option" where
  "parse_mantissa m =
     (let ip = takeWhile is_digit m; r = dropWhile is_digit m
      in case r of
           [] \<Rightarrow> if ip = [] then None else Some (of_nat (nat_of_digits ip))
         | c # fp \<Rightarrow>
             if c = CHR ''.'' \<and> list_all is_digit fp \<and> (ip \<noteq> [] \<or> fp \<noteq> [])
             then Some (of_nat (nat_of_digits (ip @ fp)) / 10 ^ length fp)
             else None)"

definition parse_number :: "string \<Rightarrow> rat option" where
  "parse_number u =
     (let m = takeWhile (\<lambda>c. c \<noteq> CHR ''e'' \<and> c \<noteq> CHR ''E'') u;
          r = dropWhile (\<lambda>c. c \<noteq> CHR ''e'' \<and> c \<noteq> CHR ''E'') u
      in case parse_mantissa m of
           None \<Rightarrow> None
         | Some x \<Rightarrow>
             (case r of
                [] \<Rightarrow> Some x
              | c # e \<Rightarrow>
                  (case parse_exponent e of
                     None \<Rightarrow> None
                   | Some k \<Rightarrow> Some (if 0 \<le> k then x * 10 ^ nat k else x / 10 ^ nat (- k)))))"

definition float_of_str :: "string \<Rightarrow> pyfloat option" where
  "float_of_str s =
     (let t = strip s;
          (neg, u) = (case t of
                        [] \<Rightarrow> (False, [])
                      | c # r \<Rightarrow> if c = CHR ''-'' then (True, r)
                                 else if c = CHR ''+'' then (False, r) else (False, t))
      in if lower u = ''inf'' \<or> lower u = ''infinity'' then Some (if neg then NInf else PInf)
         else if lower u = ''nan'' then Some NaN
         else (case parse_number u of
                 None \<Rightarrow> None
               | Some x \<Rightarrow> Some (Finite (if neg then - x else x))))"

subsection \<open>Dates\<close>

text \<open>
  \<^verbatim>\<open>datetime.datetime.strptime(s, '%Y-%m-%d')\<close> and \<^verbatim>\<open>strptime(s, '%Y-%m')\<close>; \<open>None\<close>
  is the \<^verbatim>\<open>ValueError\<close>. CPython turns the format into a regular expression, matches it
  at the start of the text, refuses text left over, and then builds the date, which
  refuses year 0 and a day the month does not have. The directives are
  \<^verbatim>\<open>%Y = \d\d\d\d\<close>, \<^verbatim>\<open>%m = 1[0-2]|0[1-9]|[1-9]\<close> and
  \<^verbatim>\<open>%d = 3[0-1]|[1-2]\d|0[1-9]|[1-9]| [1-9]\<close>; the alternatives are tried in this order.
\<close>

definition is_digit19 :: "char \<Rightarrow> bool" where
  "is_digit19 c = (c \<in> set ''123456789'')"

fun match_Y :: "string \<Rightarrow> (nat \<times> string) option" where
  "match_Y (a # b # c # d # r) =
     (if is_digit a \<and> is_digit b \<and> is_digit c \<and> is_digit d
      then Some (nat_of_digits [a, b, c, d], r) else None)"
| "match_Y s = None"

fun match_m :: "string \<Rightarrow> (nat \<times> string) option" where
  "match_m (a # b # r) =
     (if a = CHR ''1'' \<and> b \<in> set ''012'' then Some (nat_of_digits [a, b], r)
      else if a = CHR ''0'' \<and> is_digit19 b then Some (nat_of_digits [a, b], r)
      else if is_digit19 a then Some (nat_of_digits [a], b # r)
      else None)"
| "match_m [a] = (if is_digit19 a then Some (nat_of_digits [a], []) else None)"
| "match_m [] = None"

fun match_d :: "string \<Rightarrow> (nat \<times> string) option" where
  "match_d (a # b # r) =
     (if a = CHR ''3'' \<and> b \<in> set ''01'' then Some (nat_of_digits [a, b], r)
      else if a \<in> set ''12'' \<and> is_digit b then Some (nat_of_digits [a, b], r)
      else if a = CHR ''0'' \<and> is_digit19 b then Some (nat_of_digits [a, b], r)
      else if is_digit19 a then Some (nat_of_digits [a], b # r)
      else if a = CHR '' '' \<and> is_digit19 b then Some (nat_of_digits [b], r)
      else None)"
| "match_d [a] = (if is_digit19 a then Some (nat_of_digits [a], []) else None)"
| "match_d [] = None"

definition match_dash :: "string \<Rightarrow> string option" where
  "match_dash s = (case s of [] \<Rightarrow> None | c # r \<Rightarrow> if c = CHR ''-'' then Some r else None)"

definition is_leap :: "nat \<Rightarrow> bool" where
  "is_leap y = (y mod 4 = 0 \<and> (y mod 100 \<noteq> 0 \<or> y mod 400 = 0))"

definition days_in_month :: "nat \<Rightarrow> nat \<Rightarrow> nat" where
  "days_in_month y m =
     (if m = 2 then (if is_leap y then 29 else 28)
      else if m = 4 \<or> m = 6 \<or> m = 9 \<or> m = 11 then 30 else 31)"

text \<open>The check that \<^verbatim>\<open>datetime.date(y, m, d)\<close> makes.\<close>

definition valid_date :: "nat \<Rightarrow> nat \<Rightarrow> nat \<Rightarrow> bool" where
  "valid_date y m d =
     (1 \<le> y \<and> y \<le> 9999 \<and> 1 \<le> m \<and> m \<le> 12 \<and> 1 \<le> d \<and> d \<le> days_in_month y m)"

definition strptime_Ymd :: "string \<Rightarrow> (nat \<times> nat \<times> nat) option" where
  "strptime_Ymd s =
     (case match_Y s of
        None \<Rightarrow> None
      | Some (y, s1) \<Rightarrow>
     (case match_dash s1 of
        None \<Rightarrow> None
      | Some s2 \<Rightarrow>
     (case match_m s2 of
        None \<Rightarrow> None
      | Some (m, s3) \<Rightarrow>
     (case match_dash s3 of
        None \<Rightarrow> None
      | Some s4 \<Rightarrow>
     (case match_d s4 of
        None \<Rightarrow> None
      | Some (d, s5) \<Rightarrow>
          if s5 = [] \<and> valid_date y m d then Some (y, m, d) else None)))))"

definition strptime_Ym :: "string \<Rightarrow> (nat \<times> nat) option" where
  "strptime_Ym s =
     (case match_Y s of
        None \<Rightarrow> None
      | Some (y, s1) \<Rightarrow>
     (case match_dash s1 of
        None \<Rightarrow> None
      | Some s2 \<Rightarrow>
     (case match_m s2 of
        None \<Rightarrow> None
      | Some (m, s3) \<Rightarrow>
          if s3 = [] \<and> valid_date y m 1 then Some (y, m) else None)))"

section \<open>The \<^verbatim>\<open>csv\<close> module\<close>

text \<open>
  The script uses \<^verbatim>\<open>csv.DictWriter\<close> and \<^verbatim>\<open>csv.DictReader\<close> with the default
  dialect: delimiter comma, quote character \<^verbatim>\<open>"\<close>, doubled quotes, no escape character,
  minimal quoting, line terminator CR LF.
\<close>

abbreviation delimiter :: char where "delimiter \<equiv> CHR '',''"
abbreviation quotechar :: char where "quotechar \<equiv> CHR 0x22"

definition lineterminator :: string where
  "lineterminator = [CR, LF]"

text \<open>\<^verbatim>\<open>csv.field_size_limit()\<close>, at its default.\<close>

definition field_limit :: nat where
  "field_limit = 131072"

subsection \<open>Writer\<close>

text \<open>
  A field is quoted when it holds the delimiter, the quote character or a character of
  the line terminator; a quote character inside is doubled.
\<close>

definition needs_quoting :: "char \<Rightarrow> bool" where
  "needs_quoting c = (c = delimiter \<or> c = quotechar \<or> c \<in> set lineterminator)"

definition join_append :: "string \<Rightarrow> string" where
  "join_append f =
     (if list_ex needs_quoting f
      then [quotechar] @ concat (map (\<lambda>c. if c = quotechar then [quotechar, c] else [c]) f)
           @ [quotechar]
      else f)"

fun join_fields :: "string list \<Rightarrow> string" where
  "join_fields [] = []"
| "join_fields [f] = join_append f"
| "join_fields (f # g # fs) = join_append f @ [delimiter] @ join_fields (g # fs)"

text \<open>\<^verbatim>\<open>writer.writerow\<close>: a row of one empty field is written as a pair of quotes.\<close>

definition csv_writerow :: "string list \<Rightarrow> string" where
  "csv_writerow row =
     (if row = [[]] then [quotechar, quotechar] else join_fields row) @ lineterminator"

subsection \<open>Reader\<close>

text \<open>
  The reader is the state machine of CPython's \<^verbatim>\<open>_csv.c\<close>. The two states for an escape
  character are left out: the dialect has none. A character is \<open>Some c\<close>; \<open>None\<close> is
  the end-of-line mark the reader feeds itself after each line.
\<close>

datatype ParserState =
  START_RECORD | START_FIELD | IN_FIELD | IN_QUOTED_FIELD | QUOTE_IN_QUOTED_FIELD | EAT_CRNL

record ReaderObj =
  r_state :: ParserState
  r_fields :: "string list"
  r_field :: string

definition parse_reset :: ReaderObj where
  "parse_reset = \<lparr>r_state = START_RECORD, r_fields = [], r_field = []\<rparr>"

definition parse_save_field :: "ReaderObj \<Rightarrow> ReaderObj" where
  "parse_save_field self = self\<lparr>r_fields := r_fields self @ [r_field self], r_field := []\<rparr>"

definition parse_add_char :: "ReaderObj \<Rightarrow> char \<Rightarrow> exn + ReaderObj" where
  "parse_add_char self c =
     (if field_limit \<le> length (r_field self) then Inl CsvError
      else Inr (self\<lparr>r_field := r_field self @ [c]\<rparr>))"

definition add_char_then :: "ParserState \<Rightarrow> ReaderObj \<Rightarrow> char \<Rightarrow> exn + ReaderObj" where
  "add_char_then st self c =
     (case parse_add_char self c of Inl e \<Rightarrow> Inl e | Inr s \<Rightarrow> Inr (s\<lparr>r_state := st\<rparr>))"

text \<open>The body of the case \<^verbatim>\<open>START_FIELD\<close>, which \<^verbatim>\<open>START_RECORD\<close> falls through to.\<close>

definition start_field :: "ReaderObj \<Rightarrow> char option \<Rightarrow> exn + ReaderObj" where
  "start_field self c =
     (case c of
        None \<Rightarrow> Inr ((parse_save_field self)\<lparr>r_state := START_RECORD\<rparr>)
      | Some ch \<Rightarrow>
          if ch = LF \<or> ch = CR then Inr ((parse_save_field self)\<lparr>r_state := EAT_CRNL\<rparr>)
          else if ch = quotechar then Inr (self\<lparr>r_state := IN_QUOTED_FIELD\<rparr>)
          else if ch = delimiter then Inr (parse_save_field self)
          else add_char_then IN_FIELD self ch)"

definition parse_process_char :: "ReaderObj \<Rightarrow> char option \<Rightarrow> exn + ReaderObj" where
  "parse_process_char self c =
     (case r_state self of
        START_RECORD \<Rightarrow>
          (case c of
             None \<Rightarrow> Inr self
           | Some ch \<Rightarrow>
               if ch = LF \<or> ch = CR then Inr (self\<lparr>r_state := EAT_CRNL\<rparr>)
               else start_field (self\<lparr>r_state := START_FIELD\<rparr>) c)
      | START_FIELD \<Rightarrow> start_field self c
      | IN_FIELD \<Rightarrow>
          (case c of
             None \<Rightarrow> Inr ((parse_save_field self)\<lparr>r_state := START_RECORD\<rparr>)
           | Some ch \<Rightarrow>
               if ch = LF \<or> ch = CR then Inr ((parse_save_field self)\<lparr>r_state := EAT_CRNL\<rparr>)
               else if ch = delimiter
               then Inr ((parse_save_field self)\<lparr>r_state := START_FIELD\<rparr>)
               else parse_add_char self ch)
      | IN_QUOTED_FIELD \<Rightarrow>
          (case c of
             None \<Rightarrow> Inr self
           | Some ch \<Rightarrow>
               if ch = quotechar then Inr (self\<lparr>r_state := QUOTE_IN_QUOTED_FIELD\<rparr>)
               else parse_add_char self ch)
      | QUOTE_IN_QUOTED_FIELD \<Rightarrow>
          (case c of
             None \<Rightarrow> Inr ((parse_save_field self)\<lparr>r_state := START_RECORD\<rparr>)
           | Some ch \<Rightarrow>
               if ch = quotechar then add_char_then IN_QUOTED_FIELD self ch
               else if ch = delimiter
               then Inr ((parse_save_field self)\<lparr>r_state := START_FIELD\<rparr>)
               else if ch = LF \<or> ch = CR
               then Inr ((parse_save_field self)\<lparr>r_state := EAT_CRNL\<rparr>)
               else add_char_then IN_FIELD self ch)
      | EAT_CRNL \<Rightarrow>
          (case c of
             None \<Rightarrow> Inr (self\<lparr>r_state := START_RECORD\<rparr>)
           | Some ch \<Rightarrow> if ch = LF \<or> ch = CR then Inr self else Inl CsvError))"

text \<open>The characters of one line, in order.\<close>

fun process_line :: "ReaderObj \<Rightarrow> string \<Rightarrow> exn + ReaderObj" where
  "process_line self [] = Inr self"
| "process_line self (c # cs) =
     (case parse_process_char self (Some c) of
        Inl e \<Rightarrow> Inl e
      | Inr s \<Rightarrow> process_line s cs)"

text \<open>
  The rows the reader yields from the lines it is given, by running \<^verbatim>\<open>Reader_iternext\<close>
  until the lines are used up: a line and its end-of-line mark are processed; a record
  is complete when the state is back at \<^verbatim>\<open>START_RECORD\<close>, otherwise the next line
  continues it; at the end of the input an unfinished record is yielded as it stands.
  The iteration is lazy, so the result is the rows yielded and, when the reader raised,
  the exception that follows them.
\<close>

fun reader_rows :: "ReaderObj \<Rightarrow> string list \<Rightarrow> string list list \<times> exn option" where
  "reader_rows self [] =
     (if r_field self \<noteq> [] \<or> r_state self = IN_QUOTED_FIELD
      then ([r_fields (parse_save_field self)], None) else ([], None))"
| "reader_rows self (l # ls) =
     (case process_line self l of
        Inl e \<Rightarrow> ([], Some e)
      | Inr s1 \<Rightarrow>
     (case parse_process_char s1 None of
        Inl e \<Rightarrow> ([], Some e)
      | Inr s2 \<Rightarrow>
          if r_state s2 \<noteq> START_RECORD then reader_rows s2 ls
          else (case reader_rows parse_reset ls of
                  (rows, err) \<Rightarrow> (r_fields s2 # rows, err))))"

subsection \<open>Reading a text file line by line\<close>

text \<open>
  \<^verbatim>\<open>open(FILE_NAME, 'r')\<close> reads with universal newlines: CR LF and a lone CR arrive
  as LF. Iterating the file yields its lines, each with its LF.
\<close>

fun universal_newlines :: "string \<Rightarrow> string" where
  "universal_newlines (c # d # cs) =
     (if c = CR \<and> d = LF then LF # universal_newlines cs
      else if c = CR then LF # universal_newlines (d # cs)
      else c # universal_newlines (d # cs))"
| "universal_newlines [c] = (if c = CR then [LF] else [c])"
| "universal_newlines [] = []"

fun lines_from :: "string \<Rightarrow> string \<Rightarrow> string list" where
  "lines_from cur [] = (if cur = [] then [] else [cur])"
| "lines_from cur (c # cs) =
     (if c = LF then (cur @ [c]) # lines_from [] cs else lines_from (cur @ [c]) cs)"

definition file_lines :: "string \<Rightarrow> string list" where
  "file_lines text = lines_from [] (universal_newlines text)"

definition csv_reader :: "string \<Rightarrow> string list list \<times> exn option" where
  "csv_reader text = reader_rows parse_reset (file_lines text)"

subsection \<open>\<^verbatim>\<open>DictReader\<close>\<close>

text \<open>
  A row of a \<^verbatim>\<open>DictReader\<close> is a dict from field names to strings, or to \<^verbatim>\<open>None\<close> for
  a field name the row was too short for. The first row read names the fields; empty
  rows are skipped. (Surplus fields of a long row go under the key \<^verbatim>\<open>None\<close>, which the
  script never reads and the model leaves out.)
\<close>

type_synonym pyrow = "string \<rightharpoonup> string option"

definition dict_row :: "string list \<Rightarrow> string list \<Rightarrow> pyrow" where
  "dict_row fieldnames row =
     foldl (\<lambda>d k. d(k \<mapsto> None))
       (foldl (\<lambda>d kv. d(fst kv \<mapsto> Some (snd kv))) Map.empty (zip fieldnames row))
       (drop (length row) fieldnames)"

definition DictReader :: "string list list \<times> exn option \<Rightarrow> pyrow list \<times> exn option" where
  "DictReader src =
     (case fst src of
        [] \<Rightarrow> ([], snd src)
      | fieldnames # rows \<Rightarrow>
          (map (dict_row fieldnames) (filter (\<lambda>r. r \<noteq> []) rows), snd src))"

text \<open>\<^verbatim>\<open>d[k]\<close> and \<^verbatim>\<open>float(v)\<close> on a value of a row.\<close>

definition getitem :: "pyrow \<Rightarrow> string \<Rightarrow> exn + string option" where
  "getitem d k = (case d k of None \<Rightarrow> Inl KeyError | Some v \<Rightarrow> Inr v)"

definition float_of :: "string option \<Rightarrow> exn + pyfloat" where
  "float_of v =
     (case v of
        None \<Rightarrow> Inl TypeError
      | Some s \<Rightarrow> (case float_of_str s of None \<Rightarrow> Inl ValueError | Some x \<Rightarrow> Inr x))"

text \<open>
  \<^verbatim>\<open>for row in reader: body\<close> with the loop's variables as a state: the body runs on
  each row in turn; an exception of the body ends the loop, and so does one of the
  reader once the rows before it are done.
\<close>

fun for_rows :: "('s \<Rightarrow> pyrow \<Rightarrow> exn + 's) \<Rightarrow> 's \<Rightarrow> pyrow list \<Rightarrow> exn + 's" where
  "for_rows body s [] = Inr s"
| "for_rows body s (row # rows) =
     (case body s row of Inl e \<Rightarrow> Inl e | Inr s' \<Rightarrow> for_rows body s' rows)"

definition for_reader ::
  "('s \<Rightarrow> pyrow \<Rightarrow> exn + 's) \<Rightarrow> 's \<Rightarrow> pyrow list \<times> exn option \<Rightarrow> exn + 's" where
  "for_reader body s src =
     (case for_rows body s (fst src) of
        Inl e \<Rightarrow> Inl e
      | Inr s' \<Rightarrow> (case snd src of Some e \<Rightarrow> Inl e | None \<Rightarrow> Inr s'))"

section \<open>The script\<close>

subsection \<open>The world of the script: the file, the keyboard, the screen\<close>

text \<open>
  \<^verbatim>\<open>FILE_NAME\<close> names the one file the script touches: \<open>csv_file\<close> is \<open>None\<close> while it does
  not exist and its text otherwise. \<open>stdin\<close> holds the lines the user will still type.
  \<open>stdout\<close> is what has been printed: a prompt, a line of text, or a line that formats a
  float, kept as the values formatted (\<^verbatim>\<open>:.2f\<close> is not modelled).
\<close>

datatype out =
    Prompt string
  | Line string
  | ExpenseLine "string option" "string option" pyfloat "string option"
  | TotalLine pyfloat
  | CategoryLine "string option" pyfloat
  | TopLine nat "string option" pyfloat

record world =
  csv_file :: "string option"
  stdin :: "string list"
  stdout :: "out list"

definition FIELD_NAMES :: "string list" where
  "FIELD_NAMES = [''Date'', ''Category'', ''Amount'', ''Description'']"

definition print :: "out \<Rightarrow> world \<Rightarrow> world" where
  "print x w = w\<lparr>stdout := stdout w @ [x]\<rparr>"

text \<open>\<^verbatim>\<open>input(prompt)\<close>: at the end of the input it raises \<^verbatim>\<open>EOFError\<close>.\<close>

definition input :: "string \<Rightarrow> world \<Rightarrow> (exn + string) \<times> world" where
  "input prompt w =
     (case stdin w of
        [] \<Rightarrow> (Inl EOFError, print (Prompt prompt) w)
      | l # ls \<Rightarrow> (Inr l, (print (Prompt prompt) w)\<lparr>stdin := ls\<rparr>))"

text \<open>\<^verbatim>\<open>open(FILE_NAME, 'a')\<close> and a write: the file is created when missing.\<close>

definition append_file :: "string \<Rightarrow> world \<Rightarrow> world" where
  "append_file text w =
     w\<lparr>csv_file := Some (case csv_file w of None \<Rightarrow> text | Some old \<Rightarrow> old @ text)\<rparr>"

text \<open>\<^verbatim>\<open>not os.path.exists(FILE_NAME) or os.stat(FILE_NAME).st_size == 0\<close>.\<close>

definition no_data :: "world \<Rightarrow> bool" where
  "no_data w = (case csv_file w of None \<Rightarrow> True | Some text \<Rightarrow> text = [])"

text \<open>\<^verbatim>\<open>csv.DictReader(f)\<close> on the opened file.\<close>

definition open_reader :: "world \<Rightarrow> pyrow list \<times> exn option" where
  "open_reader w = (case csv_file w of None \<Rightarrow> ([], None) | Some text \<Rightarrow> DictReader (csv_reader text))"

subsection \<open>\<^verbatim>\<open>init_file\<close>\<close>

definition init_file :: "world \<Rightarrow> world" where
  "init_file w =
     (if csv_file w = None
      then print (Line ''Initialized new expense file: expenses.csv'')
             (w\<lparr>csv_file := Some (csv_writerow FIELD_NAMES)\<rparr>)
      else w)"

subsection \<open>\<^verbatim>\<open>add_expense\<close>\<close>

text \<open>The dict \<^verbatim>\<open>new_expense\<close>.\<close>

record expense =
  Date :: string
  Category :: string
  Amount :: pyfloat
  Description :: string

text \<open>
  The two \<^verbatim>\<open>while True\<close> loops. Each round reads one line, so the loops recurse over the
  lines still to come; the first argument is \<open>stdin\<close> of the world. No round limit:
  they end with a value, or with \<^verbatim>\<open>EOFError\<close> when the input ends.
\<close>

fun date_loop :: "string list \<Rightarrow> world \<Rightarrow> (exn + string) \<times> world" where
  "date_loop [] w = (Inl EOFError, print (Prompt ''Enter date (YYYY-MM-DD): '') w)"
| "date_loop (date_str # ls) w =
     (let w1 = (print (Prompt ''Enter date (YYYY-MM-DD): '') w)\<lparr>stdin := ls\<rparr>
      in case strptime_Ymd date_str of
           Some d \<Rightarrow> (Inr date_str, w1)
         | None \<Rightarrow> date_loop ls (print (Line ''Invalid date format. Please use YYYY-MM-DD.'') w1))"

fun amount_loop :: "string list \<Rightarrow> world \<Rightarrow> (exn + pyfloat) \<times> world" where
  "amount_loop [] w = (Inl EOFError, print (Prompt ''Enter amount: '') w)"
| "amount_loop (l # ls) w =
     (let w1 = (print (Prompt ''Enter amount: '') w)\<lparr>stdin := ls\<rparr>
      in case float_of_str l of
           Some amount \<Rightarrow>
             if fle amount (Finite 0)
             then amount_loop ls (print (Line ''Amount must be a positive number.'') w1)
             else (Inr amount, w1)
         | None \<Rightarrow> amount_loop ls (print (Line ''Invalid amount. Please enter a number.'') w1))"

text \<open>
  \<^verbatim>\<open>DictWriter.writerow(new_expense)\<close>: the values in the order of \<^verbatim>\<open>FIELD_NAMES\<close>, the
  float through \<^verbatim>\<open>str\<close>. What \<^verbatim>\<open>str\<close> prints for a float is the parameter \<open>str_float\<close>.
\<close>

definition DictWriter_writerow :: "(pyfloat \<Rightarrow> string) \<Rightarrow> expense \<Rightarrow> string" where
  "DictWriter_writerow str_float e =
     csv_writerow [Date e, Category e, str_float (Amount e), Description e]"

text \<open>
  The record \<^verbatim>\<open>add_expense\<close> composes from the lines typed, before anything is written;
  the exception when the input ends first.
\<close>

definition capture :: "world \<Rightarrow> (exn + expense) \<times> world" where
  "capture w =
     (case date_loop (stdin w) w of
        (Inl e, w1) \<Rightarrow> (Inl e, w1)
      | (Inr date_str, w1) \<Rightarrow>
     (case amount_loop (stdin w1) w1 of
        (Inl e, w2) \<Rightarrow> (Inl e, w2)
      | (Inr amount, w2) \<Rightarrow>
     (case input ''Enter category (e.g., Food, Transport, Bills): '' w2 of
        (Inl e, w3) \<Rightarrow> (Inl e, w3)
      | (Inr category, w3) \<Rightarrow>
     (case input ''Enter a brief description: '' w3 of
        (Inl e, w4) \<Rightarrow> (Inl e, w4)
      | (Inr description, w4) \<Rightarrow>
          (Inr \<lparr>Date = date_str, Category = capitalize category, Amount = amount,
                Description = description\<rparr>, w4)))))"

text \<open>An operation of the menu ends with the world it leaves and the exception it raised,
  if any.\<close>

definition add_expense :: "(pyfloat \<Rightarrow> string) \<Rightarrow> world \<Rightarrow> exn option \<times> world" where
  "add_expense str_float w =
     (case capture (print (Line (LF # ''--- Add New Expense ---'')) w) of
        (Inl e, w4) \<Rightarrow> (Some e, w4)
      | (Inr new_expense, w4) \<Rightarrow>
          (None, print (Line ''Expense added successfully!'')
                   (append_file (DictWriter_writerow str_float new_expense) w4)))"

subsection \<open>\<^verbatim>\<open>view_expenses\<close>\<close>

text \<open>The line printed for one expense (lines 75-76 and 100-101).\<close>

definition expense_line :: "pyrow \<Rightarrow> exn + out" where
  "expense_line expense =
     (case getitem expense ''Date'' of Inl e \<Rightarrow> Inl e | Inr d \<Rightarrow>
     (case getitem expense ''Category'' of Inl e \<Rightarrow> Inl e | Inr c \<Rightarrow>
     (case getitem expense ''Amount'' of Inl e \<Rightarrow> Inl e | Inr a \<Rightarrow>
     (case float_of a of Inl e \<Rightarrow> Inl e | Inr x \<Rightarrow>
     (case getitem expense ''Description'' of Inl e \<Rightarrow> Inl e | Inr t \<Rightarrow>
        Inr (ExpenseLine d c x t))))))"

fun print_expenses :: "pyrow list \<Rightarrow> world \<Rightarrow> exn option \<times> world" where
  "print_expenses [] w = (None, w)"
| "print_expenses (expense # rest) w =
     (case expense_line expense of
        Inl e \<Rightarrow> (Some e, w)
      | Inr l \<Rightarrow> print_expenses rest (print l w))"

definition view_expenses :: "world \<Rightarrow> exn option \<times> world" where
  "view_expenses w =
     (let w0 = print (Line (LF # ''--- All Expenses ---'')) w
      in if no_data w0 then (None, print (Line ''No expenses recorded yet.'') w0)
         else (case for_reader (\<lambda>data row. Inr (data @ [row])) [] (open_reader w0) of
                 Inl e \<Rightarrow> (Some e, w0)
               | Inr data \<Rightarrow>
                   if data = [] then (None, print (Line ''No expenses found.'') w0)
                   else print_expenses data w0))"

subsection \<open>\<^verbatim>\<open>search_expenses\<close>\<close>

text \<open>The body of the loop over the rows (lines 92-95), on \<^verbatim>\<open>found_expenses\<close>.\<close>

definition date_matches :: "string \<Rightarrow> string \<Rightarrow> pyrow \<Rightarrow> exn + bool" where
  "date_matches search_by search_term row =
     (if search_by = ''date''
      then (case getitem row ''Date'' of Inl e \<Rightarrow> Inl e | Inr d \<Rightarrow> Inr (d = Some search_term))
      else Inr False)"

definition category_matches :: "string \<Rightarrow> string \<Rightarrow> pyrow \<Rightarrow> exn + bool" where
  "category_matches search_by search_term row =
     (if search_by = ''category''
      then (case getitem row ''Category'' of
              Inl e \<Rightarrow> Inl e
            | Inr None \<Rightarrow> Inl AttributeError
            | Inr (Some c) \<Rightarrow> Inr (lower c = lower search_term))
      else Inr False)"

definition search_row :: "string \<Rightarrow> string \<Rightarrow> pyrow list \<Rightarrow> pyrow \<Rightarrow> exn + pyrow list" where
  "search_row search_by search_term found_expenses row =
     (case date_matches search_by search_term row of
        Inl e \<Rightarrow> Inl e
      | Inr True \<Rightarrow> Inr (found_expenses @ [row])
      | Inr False \<Rightarrow>
          (case category_matches search_by search_term row of
             Inl e \<Rightarrow> Inl e
           | Inr True \<Rightarrow> Inr (found_expenses @ [row])
           | Inr False \<Rightarrow> Inr found_expenses))"

text \<open>Lines 88-95: the rows found among those the reader yields.\<close>

definition find_expenses ::
  "string \<Rightarrow> string \<Rightarrow> pyrow list \<times> exn option \<Rightarrow> exn + pyrow list" where
  "find_expenses search_by search_term src =
     for_reader (search_row search_by search_term) [] src"

definition search_expenses :: "world \<Rightarrow> exn option \<times> world" where
  "search_expenses w =
     (let w0 = print (Line (LF # ''--- Search Expenses ---'')) w
      in if no_data w0 then (None, print (Line ''No expenses recorded yet.'') w0)
         else
     (case input ''Search by 'date' or 'category'? '' w0 of
        (Inl e, w1) \<Rightarrow> (Some e, w1)
      | (Inr mode, w1) \<Rightarrow>
     (let search_by = lower mode
      in case input (''Enter the '' @ search_by @ '' to search for: '') w1 of
           (Inl e, w2) \<Rightarrow> (Some e, w2)
         | (Inr search_term, w2) \<Rightarrow>
             (case find_expenses search_by search_term (open_reader w2) of
                Inl e \<Rightarrow> (Some e, w2)
              | Inr found_expenses \<Rightarrow>
                  if found_expenses \<noteq> []
                  then print_expenses found_expenses
                         (print (Line (LF # ''--- Search Results ---'')) w2)
                  else (None, print (Line ''No matching expenses found.'') w2)))))"

subsection \<open>\<^verbatim>\<open>get_monthly_summary\<close>\<close>

text \<open>
  \<^verbatim>\<open>category_totals\<close> is a \<^verbatim>\<open>defaultdict(float)\<close>. A dict keeps its keys in the order
  they were first set, so it is a list of pairs; \<^verbatim>\<open>d[k] += a\<close> adds to the entry of
  \<open>k\<close>, or appends the entry \<^verbatim>\<open>0.0 + a\<close>. A key is the category of a row, a string or
  \<^verbatim>\<open>None\<close>.
\<close>

type_synonym totals = "(string option \<times> pyfloat) list"

fun add_to :: "totals \<Rightarrow> string option \<Rightarrow> pyfloat \<Rightarrow> totals" where
  "add_to [] k a = [(k, fadd (Finite 0) a)]"
| "add_to ((k', v) # d) k a =
     (if k' = k then (k', fadd v a) # d else (k', v) # add_to d k a)"

text \<open>The body of the loop over the rows (lines 125-130), on \<^verbatim>\<open>monthly_total\<close> and
  \<^verbatim>\<open>category_totals\<close>.\<close>

definition summary_row ::
  "string \<Rightarrow> pyfloat \<times> totals \<Rightarrow> pyrow \<Rightarrow> exn + pyfloat \<times> totals" where
  "summary_row month_year_str acc row =
     (case getitem row ''Date'' of
        Inl e \<Rightarrow> Inl e
      | Inr None \<Rightarrow> Inl AttributeError
      | Inr (Some d) \<Rightarrow>
          if startswith d month_year_str
          then (case getitem row ''Amount'' of Inl e \<Rightarrow> Inl e | Inr a \<Rightarrow>
               (case float_of a of Inl e \<Rightarrow> Inl e | Inr amount \<Rightarrow>
               (case getitem row ''Category'' of Inl e \<Rightarrow> Inl e | Inr category \<Rightarrow>
                  Inr (fadd (fst acc) amount, add_to (snd acc) category amount))))
          else Inr acc)"

text \<open>Lines 119-130: the totals over the rows the reader yields.\<close>

definition monthly_totals ::
  "string \<Rightarrow> pyrow list \<times> exn option \<Rightarrow> exn + pyfloat \<times> totals" where
  "monthly_totals month_year_str src = for_reader (summary_row month_year_str) (Finite 0, []) src"

text \<open>
  \<^verbatim>\<open>sorted(items, key=..., reverse=True)\<close>. Python's sort is stable and compares keys
  with \<^verbatim>\<open><\<close> only; with \<^verbatim>\<open>reverse=True\<close> CPython reverses the list, sorts it
  ascending and reverses the result. The ascending sort is modelled as insertion from
  the right, which gives the result of every stable sort when \<^verbatim>\<open><\<close> orders the
  keys; it does not when a key is \<^verbatim>\<open>nan\<close>.
\<close>

fun insort_lt :: "('a \<Rightarrow> pyfloat) \<Rightarrow> 'a \<Rightarrow> 'a list \<Rightarrow> 'a list" where
  "insort_lt key x [] = [x]"
| "insort_lt key x (y # ys) =
     (if flt (key y) (key x) then y # insort_lt key x ys else x # y # ys)"

definition sort_stable :: "('a \<Rightarrow> pyfloat) \<Rightarrow> 'a list \<Rightarrow> 'a list" where
  "sort_stable key xs = foldr (insort_lt key) xs []"

definition sorted_reverse :: "('a \<Rightarrow> pyfloat) \<Rightarrow> 'a list \<Rightarrow> 'a list" where
  "sorted_reverse key xs = rev (sort_stable key (rev xs))"

text \<open>\<^verbatim>\<open>for i, (cat, total) in enumerate(...)\<close>, printing \<^verbatim>\<open>i+1\<close>.\<close>

fun top_lines :: "nat \<Rightarrow> totals \<Rightarrow> out list" where
  "top_lines i [] = []"
| "top_lines i ((cat, subtotal) # rest) =
     TopLine (i + 1) cat subtotal # top_lines (i + 1) rest"

text \<open>Lines 143-150: the report of the top categories.\<close>

definition top_report :: "totals \<Rightarrow> out list" where
  "top_report category_totals =
     (let sorted_categories = sorted_reverse snd category_totals
      in [Line (LF # ''--- Top 3 Expense Categories ---'')]
         @ (if length sorted_categories < 3
            then [Line ''Not enough data to determine top 3 categories.''] else [])
         @ top_lines 0 (take 3 sorted_categories))"

text \<open>Lines 132-150: everything printed once the totals are known.\<close>

definition report :: "string \<Rightarrow> pyfloat \<Rightarrow> totals \<Rightarrow> out list" where
  "report month_year_str monthly_total category_totals =
     (if feq monthly_total (Finite 0)
      then [Line (''No expenses found for '' @ month_year_str @ ''.'')]
      else [Line (LF # ''Summary for '' @ month_year_str @ '':''),
            TotalLine monthly_total,
            Line (LF # ''--- Summary by Category ---'')]
           @ map (\<lambda>item. CategoryLine (fst item) (snd item)) category_totals
           @ top_report category_totals)"

definition print_all :: "out list \<Rightarrow> world \<Rightarrow> world" where
  "print_all xs w = w\<lparr>stdout := stdout w @ xs\<rparr>"

definition get_monthly_summary :: "world \<Rightarrow> exn option \<times> world" where
  "get_monthly_summary w =
     (let w0 = print (Line (LF # ''--- Monthly Expense Summary ---'')) w
      in if no_data w0 then (None, print (Line ''No expenses recorded yet.'') w0)
         else
     (case input ''Enter month and year to summarize (e.g., 2025-09): '' w0 of
        (Inl e, w1) \<Rightarrow> (Some e, w1)
      | (Inr month_year_str, w1) \<Rightarrow>
     (case strptime_Ym month_year_str of
        None \<Rightarrow> (None, print (Line ''Invalid month/year format. Please use YYYY-MM.'') w1)
      | Some ym \<Rightarrow>
     (case monthly_totals month_year_str (open_reader w1) of
        Inl e \<Rightarrow> (Some e, w1)
      | Inr (monthly_total, category_totals) \<Rightarrow>
          (None, print_all (report month_year_str monthly_total category_totals) w1)))))"

subsection \<open>Records as they stand in the file\<close>

text \<open>
  A record of the store is a row of four texts under the header \<^verbatim>\<open>FIELD_NAMES\<close>;
  \<open>as_dict\<close> is the dict a \<^verbatim>\<open>DictReader\<close> makes of it.
\<close>

record row =
  row_date :: string
  row_category :: string
  row_amount :: string
  row_description :: string

definition as_list :: "row \<Rightarrow> string list" where
  "as_list r = [row_date r, row_category r, row_amount r, row_description r]"

definition as_dict :: "row \<Rightarrow> pyrow" where
  "as_dict r = dict_row FIELD_NAMES (as_list r)"

text \<open>The row that \<^verbatim>\<open>add_expense\<close> writes for \<^verbatim>\<open>new_expense\<close>.\<close>

definition written :: "(pyfloat \<Rightarrow> string) \<Rightarrow> expense \<Rightarrow> row" where
  "written str_float e =
     \<lparr>row_date = Date e, row_category = Category e, row_amount = str_float (Amount e),
      row_description = Description e\<rparr>"

text \<open>
  Words of the specification, for the statements about the summary: the records of a
  month are those whose date text starts with the month prefix; the amount of a record
  is what \<^verbatim>\<open>float\<close> reads from its amount text; amounts are summed from \<^verbatim>\<open>0.0\<close>
  in the order of the file; the categories are listed in the order they are first seen.
\<close>

definition in_month :: "string \<Rightarrow> row list \<Rightarrow> row list" where
  "in_month month_prefix recs = filter (\<lambda>r. startswith (row_date r) month_prefix) recs"

definition amount_of :: "row \<Rightarrow> pyfloat" where
  "amount_of r = the (float_of_str (row_amount r))"

definition has_amount :: "row \<Rightarrow> bool" where
  "has_amount r = (float_of_str (row_amount r) \<noteq> None)"

definition positive_amount :: "row \<Rightarrow> bool" where
  "positive_amount r =
     (case float_of_str (row_amount r) of None \<Rightarrow> False | Some a \<Rightarrow> flt (Finite 0) a)"

definition sum_amounts :: "row list \<Rightarrow> pyfloat" where
  "sum_amounts recs = foldl fadd (Finite 0) (map amount_of recs)"

definition first_seen :: "'a list \<Rightarrow> 'a list" where
  "first_seen xs = rev (remdups (rev xs))"

definition by_category :: "row list \<Rightarrow> totals" where
  "by_category recs =
     map (\<lambda>c. (Some c, sum_amounts (filter (\<lambda>r. row_category r = c) recs)))
       (first_seen (map row_category recs))"



text \<open>
  A text that \<^verbatim>\<open>input\<close> can return and the reader takes back: \<^verbatim>\<open>input\<close> reads one
  line, so the text holds no line break, and the reader refuses a field longer than
  \<^verbatim>\<open>csv.field_size_limit()\<close>. A record is valid for the store when its four texts
  are such.
\<close>

definition line_text :: "string \<Rightarrow> bool" where
  "line_text s = (\<not> list_ex (\<lambda>c. c = CR \<or> c = LF) s \<and> length s \<le> field_limit)"

definition storable :: "(pyfloat \<Rightarrow> string) \<Rightarrow> expense \<Rightarrow> bool" where
  "storable str_float e =
     (line_text (Date e) \<and> line_text (Category e) \<and> line_text (str_float (Amount e)) \<and>
      line_text (Description e))"

text \<open>The store after \<^verbatim>\<open>init_file\<close> and one append (lines 55-57) per record.\<close>

definition append_all :: "(pyfloat \<Rightarrow> string) \<Rightarrow> expense list \<Rightarrow> world \<Rightarrow> world" where
  "append_all str_float es w =
     foldl (\<lambda>w e. append_file (DictWriter_writerow str_float e) w) (init_file w) es"

text \<open>A row of two fields or more, each a line text.\<close>

definition wide_row :: "string list \<Rightarrow> bool" where
  "wide_row row = (2 \<le> length row \<and> list_all line_text row)"

section \<open>Properties\<close>

subsection \<open>What leaves the file alone\<close>

lemma csv_file_print [simp]: "csv_file (print x w) = csv_file w"
  by (simp add: print_def)

lemma csv_file_print_all [simp]: "csv_file (print_all xs w) = csv_file w"
  by (simp add: print_all_def)

lemma csv_file_input [simp]: "csv_file (snd (input p w)) = csv_file w"
  by (simp add: input_def split: list.splits)

lemma csv_file_date_loop [simp]: "csv_file (snd (date_loop ls w)) = csv_file w"
  by (induction ls arbitrary: w) (simp_all add: Let_def split: option.splits)

lemma csv_file_amount_loop [simp]: "csv_file (snd (amount_loop ls w)) = csv_file w"
  by (induction ls arbitrary: w) (simp_all add: Let_def split: option.splits)

lemma csv_file_print_expenses [simp]: "csv_file (snd (print_expenses rows w)) = csv_file w"
  by (induction rows arbitrary: w) (simp_all split: sum.splits)

lemma no_data_print [simp]: "no_data (print x w) = no_data w"
  by (simp add: no_data_def)

lemma csv_file_capture [simp]: "csv_file (snd (capture w)) = csv_file w"
  unfolding capture_def
  apply (simp split: prod.splits sum.splits)
  apply (auto dest!: arg_cong [where f = "\<lambda>p. csv_file (snd p)"])
  done

text \<open>
  C10. Viewing, searching and summarising never change the file: whatever the world
  they start in, and whether they return or raise, the file afterwards is the file
  before.
\<close>

theorem read_only_operations:
  "csv_file (snd (view_expenses w)) = csv_file w \<and>
   csv_file (snd (search_expenses w)) = csv_file w \<and>
   csv_file (snd (get_monthly_summary w)) = csv_file w"
proof (intro conjI)
  show "csv_file (snd (view_expenses w)) = csv_file w"
    by (simp add: view_expenses_def Let_def split: sum.splits)
next
  show "csv_file (snd (search_expenses w)) = csv_file w"
    unfolding search_expenses_def Let_def
    apply (simp split: prod.splits sum.splits)
    apply (auto dest!: arg_cong [where f = "\<lambda>p. csv_file (snd p)"])
    done
next
  show "csv_file (snd (get_monthly_summary w)) = csv_file w"
    unfolding get_monthly_summary_def Let_def
    apply (simp split: prod.splits sum.splits option.splits)
    apply (auto dest!: arg_cong [where f = "\<lambda>p. csv_file (snd p)"])
    done
qed

subsection \<open>Evaluating the model on concrete text\<close>

lemmas float_eval = float_of_str_def strip_def is_space_def lower_def lower_char_def
  parse_number_def parse_mantissa_def parse_exponent_def is_digit_def nat_of_digits_def
  digit_val_def

lemmas date_eval = strptime_Ymd_def strptime_Ym_def match_dash_def valid_date_def
  days_in_month_def is_leap_def is_digit19_def

lemmas csv_eval = open_reader_def DictReader_def csv_reader_def file_lines_def
  parse_reset_def parse_process_char_def start_field_def parse_save_field_def
  parse_add_char_def add_char_then_def field_limit_def csv_writerow_def join_append_def
  needs_quoting_def lineterminator_def FIELD_NAMES_def

subsection \<open>Rows of the store as dicts, and small steps of the world\<close>

lemma as_dict_fields [simp]:
  "as_dict r ''Date'' = Some (Some (row_date r))"
  "as_dict r ''Category'' = Some (Some (row_category r))"
  "as_dict r ''Amount'' = Some (Some (row_amount r))"
  "as_dict r ''Description'' = Some (Some (row_description r))"
  by (simp_all add: as_dict_def as_list_def dict_row_def FIELD_NAMES_def)

lemma for_reader_no_error [simp]: "for_reader body s (rows, None) = for_rows body s rows"
  by (simp add: for_reader_def split: sum.splits)

lemma stdin_print [simp]: "stdin (print x w) = stdin w"
  by (simp add: print_def)

lemma input_Cons:
  "stdin w = l # ls \<Longrightarrow> input p w = (Inr l, (print (Prompt p) w)\<lparr>stdin := ls\<rparr>)"
  by (simp add: input_def)

lemma open_reader_frame [simp]:
  "open_reader (print x w) = open_reader w"
  "open_reader (w\<lparr>stdin := ls\<rparr>) = open_reader w"
  by (simp_all add: open_reader_def)

subsection \<open>Search\<close>



lemma search_rows_other:
  "search_by \<noteq> ''date'' \<Longrightarrow> search_by \<noteq> ''category'' \<Longrightarrow>
   for_rows (search_row search_by t) found rows = Inr found"
  by (induction rows arbitrary: found)
     (simp_all add: search_row_def date_matches_def category_matches_def)












text \<open>
  C9. When the store has data and the reader reads it without an exception, a mode that
  (lower-cased) is neither \<^verbatim>\<open>date\<close> nor \<^verbatim>\<open>category\<close> finds no row, whatever the
  rows and the search term: the operation asks for the term under that mode name, prints
  the message of a search without matches and returns normally. The mode is never
  refused.
\<close>

theorem search_unrecognized_mode:
  assumes "\<not> no_data w" and "stdin w = mode # search_term # rest"
    and "lower mode \<noteq> ''date''" and "lower mode \<noteq> ''category''"
    and "snd (open_reader w) = None"
  shows "find_expenses (lower mode) search_term (open_reader w) = Inr [] \<and>
         search_expenses w =
           (None, (print_all [Line (LF # ''--- Search Expenses ---''),
                              Prompt ''Search by 'date' or 'category'? '',
                              Prompt (''Enter the '' @ lower mode @ '' to search for: ''),
                              Line ''No matching expenses found.''] w)\<lparr>stdin := rest\<rparr>)"
proof -
  have f: "find_expenses (lower mode) search_term (open_reader w) = Inr []"
    using assms(3-5)
    by (simp add: find_expenses_def for_reader_def search_rows_other)
  show ?thesis
    using assms(1,2) f
    by (simp add: search_expenses_def Let_def input_Cons) (simp add: print_def print_all_def)
qed

theorem search_unrecognized_mode_witness:
  "search_expenses
     \<lparr>csv_file = Some (csv_writerow FIELD_NAMES @
                        csv_writerow [''2025-09-15'', ''Food'', ''5.5'', ''lunch'']),
      stdin = [''Amount'', ''5.5''], stdout = []\<rparr> =
   (None,
    \<lparr>csv_file = Some (csv_writerow FIELD_NAMES @
                       csv_writerow [''2025-09-15'', ''Food'', ''5.5'', ''lunch'']),
     stdin = [],
     stdout = [Line (LF # ''--- Search Expenses ---''),
               Prompt ''Search by 'date' or 'category'? '',
               Prompt ''Enter the amount to search for: '',
               Line ''No matching expenses found.'']\<rparr>)"
proof -
  let ?w = "\<lparr>csv_file = Some (csv_writerow FIELD_NAMES @
                        csv_writerow [''2025-09-15'', ''Food'', ''5.5'', ''lunch'']),
      stdin = [''Amount'', ''5.5''], stdout = []\<rparr>"
  have 1: "\<not> no_data ?w" by (simp add: no_data_def csv_writerow_def)
  have 2: "stdin ?w = ''Amount'' # ''5.5'' # []" by simp
  have 3: "lower ''Amount'' \<noteq> ''date''" "lower ''Amount'' \<noteq> ''category''"
    by (simp_all add: lower_def lower_char_def)
  have 4: "snd (open_reader ?w) = None"
    by (simp add: csv_eval)
  show ?thesis
    using search_unrecognized_mode [OF 1 2 3 4]
    by (simp add: print_all_def lower_def lower_char_def)
qed

subsection \<open>Entry capture\<close>

lemma capitalize_length: "length (capitalize s) = length s"
  by (cases s) simp_all

lemma capitalize_nth:
  "i < length s \<Longrightarrow>
   capitalize s ! i = (if i = 0 then upper_char (s ! i) else lower_char (s ! i))"
  by (cases s; cases i) simp_all

lemma capture_steps:
  assumes "date_loop (stdin w) w = (Inr date_str, w1)"
    and "amount_loop (stdin w1) w1 = (Inr amount, w2)"
    and "stdin w2 = category # description # rest"
  shows "fst (capture w) =
           Inr \<lparr>Date = date_str, Category = capitalize category, Amount = amount,
                Description = description\<rparr>"
  using assms by (simp add: capture_def input_Cons)

lemma add_expense_writes:
  assumes "fst (capture (print (Line (LF # ''--- Add New Expense ---'')) w)) = Inr e"
  shows "fst (add_expense str_float w) = None"
    and "csv_file (snd (add_expense str_float w)) =
           csv_file (append_file (DictWriter_writerow str_float e) w)"
proof -
  obtain w4 where c: "capture (print (Line (LF # ''--- Add New Expense ---'')) w) = (Inr e, w4)"
    using assms by (cases "capture (print (Line (LF # ''--- Add New Expense ---'')) w)") auto
  have "csv_file w4 = csv_file w"
    using csv_file_capture [of "print (Line (LF # ''--- Add New Expense ---'')) w"] c by simp
  then show "fst (add_expense str_float w) = None"
    and "csv_file (snd (add_expense str_float w)) =
           csv_file (append_file (DictWriter_writerow str_float e) w)"
    using c by (simp_all add: add_expense_def append_file_def)
qed

text \<open>What the two loops let through: a date that parses, an amount that is not \<^verbatim>\<open><= 0\<close>.\<close>

lemma date_loop_parses: "date_loop ls w = (Inr d, w') \<Longrightarrow> strptime_Ymd d \<noteq> None"
  by (induction ls arbitrary: w) (auto simp: Let_def split: option.splits)

lemma amount_loop_not_le: "amount_loop ls w = (Inr a, w') \<Longrightarrow> \<not> fle a (Finite 0)"
  by (induction ls arbitrary: w) (auto simp: Let_def split: option.splits if_splits)

lemma capture_checks:
  assumes "capture w = (Inr e, w')"
  shows "strptime_Ymd (Date e) \<noteq> None \<and> \<not> fle (Amount e) (Finite 0)"
  using assms unfolding capture_def
  by (auto split: prod.splits sum.splits dest: date_loop_parses amount_loop_not_le)

lemma not_le_zero: "\<not> fle a (Finite 0) \<longleftrightarrow> a = NaN \<or> flt (Finite 0) a"
  by (cases a) auto

text \<open>
  C1 (as amended). The category that \<^verbatim>\<open>add_expense\<close> stores is the category typed with
  its first character upper-cased and every other character lower-cased: once the date
  loop and the amount loop have accepted their values, the next two lines are the category
  and the description, and the row appended to the file holds the capitalized category,
  which has the length of the typed one, \<open>upper_char\<close> of its first character and
  \<open>lower_char\<close> of each later one.
\<close>

theorem add_expense_category:
  assumes "w0 = print (Line (LF # ''--- Add New Expense ---'')) w"
    and "date_loop (stdin w0) w0 = (Inr date_str, w1)"
    and "amount_loop (stdin w1) w1 = (Inr amount, w2)"
    and "stdin w2 = category # description # rest"
  shows "csv_file (snd (add_expense str_float w)) =
           csv_file (append_file
             (csv_writerow [date_str, capitalize category, str_float amount, description]) w)
         \<and> length (capitalize category) = length category
         \<and> (\<forall>i < length category.
               capitalize category ! i =
                 (if i = 0 then upper_char (category ! i) else lower_char (category ! i)))"
proof -
  have "fst (capture w0) =
           Inr \<lparr>Date = date_str, Category = capitalize category, Amount = amount,
                Description = description\<rparr>"
    using assms(2-4) by (rule capture_steps)
  then show ?thesis
    using add_expense_writes(2) [of w _ str_float] assms(1)
    by (simp add: DictWriter_writerow_def capitalize_length capitalize_nth)
qed

theorem add_expense_category_witness:
  "csv_file (snd (add_expense (\<lambda>x. ''5.5'')
     \<lparr>csv_file = Some (csv_writerow FIELD_NAMES),
      stdin = [''2025-09-15'', ''5.5'', ''foOD'', ''lunch''], stdout = []\<rparr>)) =
   Some (csv_writerow FIELD_NAMES @ csv_writerow [''2025-09-15'', ''Food'', ''5.5'', ''lunch''])"
proof -
  let ?w = "\<lparr>csv_file = Some (csv_writerow FIELD_NAMES),
      stdin = [''2025-09-15'', ''5.5'', ''foOD'', ''lunch''], stdout = []\<rparr>"
  let ?w0 = "print (Line (LF # ''--- Add New Expense ---'')) ?w"
  let ?w1 = "(print (Prompt ''Enter date (YYYY-MM-DD): '') ?w0)
               \<lparr>stdin := [''5.5'', ''foOD'', ''lunch'']\<rparr>"
  let ?w2 = "(print (Prompt ''Enter amount: '') ?w1)\<lparr>stdin := [''foOD'', ''lunch'']\<rparr>"
  have d: "date_loop (stdin ?w0) ?w0 = (Inr ''2025-09-15'', ?w1)"
    by (simp add: date_eval float_eval print_def)
  have a: "amount_loop (stdin ?w1) ?w1 = (Inr (Finite (11 / 2)), ?w2)"
    by (simp add: float_eval print_def)
  have s: "stdin ?w2 = ''foOD'' # ''lunch'' # []"
    by simp
  show ?thesis
    using add_expense_category [OF refl d a s, of "\<lambda>x. ''5.5''"]
    by (simp add: append_file_def upper_char_def lower_char_def)
qed

text \<open>
  C1 as it was stated fails: typed \<^verbatim>\<open>foOD\<close>, the category of the captured
  record is \<^verbatim>\<open>Food\<close>, not \<^verbatim>\<open>FoOD\<close>.
\<close>

theorem capitalize_lowers_the_rest:
  "fst (capture \<lparr>csv_file = Some (csv_writerow FIELD_NAMES),
                  stdin = [''2025-09-15'', ''5.5'', ''foOD'', ''lunch''], stdout = []\<rparr>) =
     Inr \<lparr>Date = ''2025-09-15'', Category = ''Food'', Amount = Finite (11 / 2),
          Description = ''lunch''\<rparr> \<and>
   fst (capture \<lparr>csv_file = Some (csv_writerow FIELD_NAMES),
                  stdin = [''2025-09-15'', ''5.5'', ''foOD'', ''lunch''], stdout = []\<rparr>) \<noteq>
     Inr \<lparr>Date = ''2025-09-15'', Category = ''FoOD'', Amount = Finite (11 / 2),
          Description = ''lunch''\<rparr>"
  by (simp add: capture_def input_def date_eval float_eval print_def upper_char_def)

text \<open>
  C2. The amount loop refuses an amount only when \<^verbatim>\<open>amount <= 0\<close> holds, and no
  comparison holds of \<^verbatim>\<open>nan\<close>: typed \<^verbatim>\<open>nan\<close>, the amount is accepted, the captured
  record has the amount \<^verbatim>\<open>nan\<close>, which is not greater than zero, and \<^verbatim>\<open>add_expense\<close>
  appends its row to the file.
\<close>

theorem nan_amount_is_stored:
  "fst (capture \<lparr>csv_file = Some (csv_writerow FIELD_NAMES),
                  stdin = [''2025-09-15'', ''nan'', ''Food'', ''lunch''], stdout = []\<rparr>) =
     Inr \<lparr>Date = ''2025-09-15'', Category = ''Food'', Amount = NaN, Description = ''lunch''\<rparr> \<and>
   \<not> flt (Finite 0) NaN \<and>
   csv_file (snd (add_expense str_float
            \<lparr>csv_file = Some (csv_writerow FIELD_NAMES),
             stdin = [''2025-09-15'', ''nan'', ''Food'', ''lunch''], stdout = []\<rparr>)) =
     Some (csv_writerow FIELD_NAMES @
           csv_writerow [''2025-09-15'', ''Food'', str_float NaN, ''lunch''])"
  by (simp add: add_expense_def capture_def input_def date_eval float_eval print_def
      upper_char_def append_file_def DictWriter_writerow_def)

subsection \<open>Monthly totals\<close>

lemma summary_row_as_dict:
  "summary_row m (t, d) (as_dict r) =
     (if startswith (row_date r) m
      then (case float_of_str (row_amount r) of
              None \<Rightarrow> Inl ValueError
            | Some a \<Rightarrow> Inr (fadd t a, add_to d (Some (row_category r)) a))
      else Inr (t, d))"
  by (simp add: summary_row_def getitem_def float_of_def split: option.splits)

lemma totals_loop:
  assumes "list_all has_amount (in_month m recs)"
  shows "for_rows (summary_row m) (t, d) (map as_dict recs) =
           Inr (foldl fadd t (map amount_of (in_month m recs)),
                foldl (\<lambda>d r. add_to d (Some (row_category r)) (amount_of r)) d (in_month m recs))"
  using assms
proof (induction recs arbitrary: t d)
  case Nil
  then show ?case by (simp add: in_month_def)
next
  case (Cons r recs)
  show ?case
  proof (cases "startswith (row_date r) m")
    case True
    with Cons.prems obtain a where a: "float_of_str (row_amount r) = Some a"
      by (auto simp: in_month_def has_amount_def)
    from True Cons.prems have "list_all has_amount (in_month m recs)"
      by (simp add: in_month_def)
    from Cons.IH [OF this] True a show ?thesis
      by (simp add: summary_row_as_dict in_month_def amount_of_def)
  next
    case False
    with Cons.prems have "list_all has_amount (in_month m recs)"
      by (simp add: in_month_def)
    from Cons.IH [OF this] False show ?thesis
      by (simp add: summary_row_as_dict in_month_def)
  qed
qed

lemma first_seen_snoc:
  "first_seen (xs @ [x]) = (if x \<in> set xs then first_seen xs else first_seen xs @ [x])"
  by (simp add: first_seen_def)

lemma set_first_seen [simp]: "set (first_seen xs) = set xs"
  by (simp add: first_seen_def)

lemma distinct_first_seen [simp]: "distinct (first_seen xs)"
  by (simp add: first_seen_def)

lemma add_to_present:
  "distinct ks \<Longrightarrow> c \<in> set ks \<Longrightarrow>
   add_to (map (\<lambda>k. (Some k, f k)) ks) (Some c) a =
     map (\<lambda>k. (Some k, if k = c then fadd (f k) a else f k)) ks"
  by (induction ks) auto

lemma add_to_absent:
  "c \<notin> set ks \<Longrightarrow>
   add_to (map (\<lambda>k. (Some k, f k)) ks) (Some c) a =
     map (\<lambda>k. (Some k, f k)) ks @ [(Some c, fadd (Finite 0) a)]"
  by (induction ks) auto

lemma sum_amounts_snoc: "sum_amounts (rs @ [r]) = fadd (sum_amounts rs) (amount_of r)"
  by (simp add: sum_amounts_def)

lemma by_category_snoc:
  "by_category (rs @ [r]) = add_to (by_category rs) (Some (row_category r)) (amount_of r)"
proof (cases "row_category r \<in> set (map row_category rs)")
  case True
  then have "add_to (by_category rs) (Some (row_category r)) (amount_of r) =
      map (\<lambda>k. (Some k, if k = row_category r
                          then fadd (sum_amounts (filter (\<lambda>r. row_category r = k) rs)) (amount_of r)
                          else sum_amounts (filter (\<lambda>r. row_category r = k) rs)))
        (first_seen (map row_category rs))"
    unfolding by_category_def by (intro add_to_present) simp_all
  also have "\<dots> = by_category (rs @ [r])"
    using True by (auto simp: by_category_def first_seen_snoc sum_amounts_snoc)
  finally show ?thesis by simp
next
  case False
  then have "\<forall>x \<in> set rs. row_category x \<noteq> row_category r"
    by simp (metis imageI)
  then have "filter (\<lambda>x. row_category x = row_category r) rs = []"
    by (simp add: filter_empty_conv)
  moreover from False
  have "add_to (by_category rs) (Some (row_category r)) (amount_of r) =
      by_category rs @ [(Some (row_category r), fadd (Finite 0) (amount_of r))]"
    unfolding by_category_def by (intro add_to_absent) simp
  ultimately show ?thesis
    using False by (auto simp: by_category_def first_seen_snoc sum_amounts_snoc sum_amounts_def)
qed

lemma grouping_loop:
  "foldl (\<lambda>d r. add_to d (Some (row_category r)) (amount_of r)) [] rs = by_category rs"
proof (induction rs rule: rev_induct)
  case Nil
  show ?case by (simp add: by_category_def first_seen_def)
next
  case (snoc r rs)
  then show ?case by (simp add: by_category_snoc)
qed

lemma monthly_totals_grouped:
  assumes "list_all has_amount (in_month month_prefix recs)"
  shows "monthly_totals month_prefix (map as_dict recs, None) =
           Inr (sum_amounts (in_month month_prefix recs),
                by_category (in_month month_prefix recs))"
  using totals_loop [OF assms, of "Finite 0" "[]"]
  by (simp add: monthly_totals_def grouping_loop sum_amounts_def)

text \<open>
  C5. Over records whose amounts \<^verbatim>\<open>float\<close> can read, the summary selects exactly the
  records whose date text starts with the month prefix (a comparison of strings, not of
  dates), sums their amounts from \<^verbatim>\<open>0.0\<close> in file order into the grand total, and
  keeps one subtotal per category string, in the order the categories are first seen,
  each the sum of the amounts of the selected records with exactly that category. On the
  three records of the specification and the prefix \<^verbatim>\<open>2025-09\<close> the total is 15 and
  the subtotals are Food 10 and Transport 5.
\<close>

theorem monthly_totals_by_prefix:
  assumes "list_all has_amount (in_month month_prefix recs)"
  shows "monthly_totals month_prefix (map as_dict recs, None) =
           Inr (foldl fadd (Finite 0) (map amount_of (in_month month_prefix recs)),
                map (\<lambda>c. (Some c,
                           foldl fadd (Finite 0)
                             (map amount_of
                                (filter (\<lambda>r. row_category r = c) (in_month month_prefix recs)))))
                  (first_seen (map row_category (in_month month_prefix recs))))
         \<and> in_month month_prefix recs = filter (\<lambda>r. prefix month_prefix (row_date r)) recs"
  using monthly_totals_grouped [OF assms]
  by (simp add: sum_amounts_def by_category_def in_month_def startswith_def)

theorem monthly_totals_by_prefix_witness:
  "monthly_totals ''2025-09''
     (map as_dict
        [\<lparr>row_date = ''2025-09-01'', row_category = ''Food'', row_amount = ''10.00'',
          row_description = ''a''\<rparr>,
         \<lparr>row_date = ''2025-09-02'', row_category = ''Transport'', row_amount = ''5.00'',
          row_description = ''b''\<rparr>,
         \<lparr>row_date = ''2025-10-01'', row_category = ''Food'', row_amount = ''99.00'',
          row_description = ''c''\<rparr>], None) =
   Inr (Finite 15, [(Some ''Food'', Finite 10), (Some ''Transport'', Finite 5)])"
proof -
  let ?recs = "[\<lparr>row_date = ''2025-09-01'', row_category = ''Food'', row_amount = ''10.00'',
          row_description = ''a''\<rparr>,
         \<lparr>row_date = ''2025-09-02'', row_category = ''Transport'', row_amount = ''5.00'',
          row_description = ''b''\<rparr>,
         \<lparr>row_date = ''2025-10-01'', row_category = ''Food'', row_amount = ''99.00'',
          row_description = ''c''\<rparr>]"
  have m: "in_month ''2025-09'' ?recs = take 2 ?recs"
    by (simp add: in_month_def startswith_def)
  have f: "float_of_str ''10.00'' = Some (Finite 10)" "float_of_str ''5.00'' = Some (Finite 5)"
    by (simp_all add: float_eval)
  have h: "list_all has_amount (in_month ''2025-09'' ?recs)"
    unfolding m by (simp add: has_amount_def f)
  show ?thesis
    using monthly_totals_by_prefix [OF h] unfolding m
    by (simp add: amount_of_def first_seen_def f)
qed

subsection \<open>The order on floats, away from nan\<close>

lemma flt_irrefl [simp]: "\<not> flt a a"
  by (cases a) simp_all

lemma fle_trans: "fle a b \<Longrightarrow> fle b c \<Longrightarrow> fle a c"
  by (cases a; cases b; cases c) simp_all

lemma flt_fle: "flt a b \<Longrightarrow> fle a b"
  by (cases a; cases b) simp_all

lemma not_flt_fle: "a \<noteq> NaN \<Longrightarrow> b \<noteq> NaN \<Longrightarrow> \<not> flt a b \<Longrightarrow> fle b a"
  by (cases a; cases b) simp_all

subsection \<open>The stable sort\<close>

lemma mset_insort_lt [simp]: "mset (insort_lt key x ys) = add_mset x (mset ys)"
  by (induction ys) simp_all

lemma mset_sort_stable [simp]: "mset (sort_stable key xs) = mset xs"
  by (induction xs) (simp_all add: sort_stable_def)

lemma mset_sorted_reverse: "mset (sorted_reverse key xs) = mset xs"
  by (simp add: sorted_reverse_def)

lemma set_insort_lt [simp]: "set (insort_lt key x ys) = insert x (set ys)"
  by (induction ys) auto

lemma set_sort_stable [simp]: "set (sort_stable key xs) = set xs"
  by (induction xs) (simp_all add: sort_stable_def)

lemma ascending_insort_lt:
  assumes "sorted_wrt (\<lambda>a b. fle (key a) (key b)) ys"
    and "key x \<noteq> NaN" and "\<forall>y \<in> set ys. key y \<noteq> NaN"
  shows "sorted_wrt (\<lambda>a b. fle (key a) (key b)) (insort_lt key x ys)"
  using assms
proof (induction ys)
  case Nil
  then show ?case by simp
next
  case (Cons y ys)
  show ?case
  proof (cases "flt (key y) (key x)")
    case True
    with Cons show ?thesis by (auto intro: flt_fle)
  next
    case False
    with Cons.prems have "fle (key x) (key y)"
      by (simp add: not_flt_fle)
    with Cons.prems False show ?thesis
      by (auto intro: fle_trans)
  qed
qed

lemma ascending_sort_stable:
  "\<forall>x \<in> set xs. key x \<noteq> NaN \<Longrightarrow>
   sorted_wrt (\<lambda>a b. fle (key a) (key b)) (sort_stable key xs)"
proof (induction xs)
  case Nil
  show ?case by (simp add: sort_stable_def)
next
  case (Cons x xs)
  then have "sorted_wrt (\<lambda>a b. fle (key a) (key b)) (insort_lt key x (sort_stable key xs))"
    by (intro ascending_insort_lt) simp_all
  then show ?case by (simp add: sort_stable_def)
qed

lemma descending_sorted_reverse:
  assumes "\<forall>x \<in> set xs. key x \<noteq> NaN"
  shows "sorted_wrt (\<lambda>a b. fle (key b) (key a)) (sorted_reverse key xs)"
proof -
  have "sorted_wrt (\<lambda>a b. fle (key a) (key b)) (sort_stable key (rev xs))"
    using assms by (intro ascending_sort_stable) simp
  then show ?thesis
    by (simp add: sorted_reverse_def sorted_wrt_rev)
qed

lemma filter_insort_lt:
  "filter (\<lambda>y. key y = k) (insort_lt key x ys) =
     (if key x = k then x # filter (\<lambda>y. key y = k) ys else filter (\<lambda>y. key y = k) ys)"
  by (induction ys) auto

lemma filter_sort_stable:
  "filter (\<lambda>y. key y = k) (sort_stable key xs) = filter (\<lambda>y. key y = k) xs"
  by (induction xs) (simp_all add: sort_stable_def filter_insort_lt)

lemma filter_sorted_reverse:
  "filter (\<lambda>y. key y = k) (sorted_reverse key xs) = filter (\<lambda>y. key y = k) xs"
  by (simp add: sorted_reverse_def filter_sort_stable rev_filter [symmetric])

subsection \<open>The summary, once the month is accepted\<close>

lemma get_monthly_summary_report:
  assumes "\<not> no_data w" and "stdin w = m # rest" and "strptime_Ym m \<noteq> None"
    and "monthly_totals m (open_reader w) = Inr (monthly_total, category_totals)"
  shows "get_monthly_summary w =
           (None, (print_all
                     ([Line (LF # ''--- Monthly Expense Summary ---''),
                       Prompt ''Enter month and year to summarize (e.g., 2025-09): '']
                      @ report m monthly_total category_totals) w)\<lparr>stdin := rest\<rparr>)"
  using assms
  by (auto simp: get_monthly_summary_def Let_def input_Cons)
     (simp add: print_def print_all_def)

lemma same_prints:
  "((print_all xs w)\<lparr>stdin := rest\<rparr> = (print_all ys w)\<lparr>stdin := rest\<rparr>) = (xs = ys)"
proof
  assume "(print_all xs w)\<lparr>stdin := rest\<rparr> = (print_all ys w)\<lparr>stdin := rest\<rparr>"
  then have "stdout ((print_all xs w)\<lparr>stdin := rest\<rparr>) = stdout ((print_all ys w)\<lparr>stdin := rest\<rparr>)"
    by simp
  then show "xs = ys" by (simp add: print_all_def)
qed simp

lemma length_sorted_reverse: "length (sorted_reverse key xs) = length xs"
  using mset_sorted_reverse [of key xs] by (metis size_mset)

lemma top_lines_nth:
  "top_lines k xs =
     map (\<lambda>i. TopLine (k + i + 1) (fst (xs ! i)) (snd (xs ! i))) [0..<length xs]"
proof (induction xs arbitrary: k)
  case Nil
  show ?case by simp
next
  case (Cons x xs)
  obtain c t where x: "x = (c, t)" by (cases x)
  have "[0..<length (x # xs)] = 0 # map Suc [0..<length xs]"
    by (simp add: upt_conv_Cons map_Suc_upt del: upt_Suc)
  then show ?case
    by (simp add: x Cons.IH comp_def del: upt_Suc)
qed

text \<open>
  Away from \<^verbatim>\<open>nan\<close> the report of the top categories is as specified: its heading, the
  notice exactly when there are fewer than three categories, then the entries at the
  places 0, 1, 2 of the ranking, as far as they exist, numbered from 1; the ranking is a
  rearrangement of the subtotals in descending order that keeps the first-seen order of
  equal subtotals.
\<close>

lemma top_categories_ranked:
  assumes "\<not> no_data w" and "stdin w = m # rest" and "strptime_Ym m \<noteq> None"
    and "monthly_totals m (open_reader w) = Inr (monthly_total, category_totals)"
    and "\<not> feq monthly_total (Finite 0)"
    and "list_all (\<lambda>item. snd item \<noteq> NaN) category_totals"
  shows "get_monthly_summary w =
           (None, (print_all
                     ([Line (LF # ''--- Monthly Expense Summary ---''),
                       Prompt ''Enter month and year to summarize (e.g., 2025-09): '',
                       Line (LF # ''Summary for '' @ m @ '':''),
                       TotalLine monthly_total,
                       Line (LF # ''--- Summary by Category ---'')]
                      @ map (\<lambda>item. CategoryLine (fst item) (snd item)) category_totals
                      @ [Line (LF # ''--- Top 3 Expense Categories ---'')]
                      @ (if length category_totals < 3
                         then [Line ''Not enough data to determine top 3 categories.'']
                         else [])
                      @ map (\<lambda>i. TopLine (i + 1)
                                   (fst (sorted_reverse snd category_totals ! i))
                                   (snd (sorted_reverse snd category_totals ! i)))
                          [0..<min 3 (length category_totals)])
                     w)\<lparr>stdin := rest\<rparr>)
         \<and> mset (sorted_reverse snd category_totals) = mset category_totals
         \<and> sorted_wrt (\<lambda>a b. fle (snd b) (snd a)) (sorted_reverse snd category_totals)
         \<and> (\<forall>v. filter (\<lambda>item. snd item = v) (sorted_reverse snd category_totals) =
                 filter (\<lambda>item. snd item = v) category_totals)"
proof (intro conjI allI)
  have "top_lines 0 (take 3 (sorted_reverse snd category_totals)) =
        map (\<lambda>i. TopLine (i + 1)
                                   (fst (sorted_reverse snd category_totals ! i))
                                   (snd (sorted_reverse snd category_totals ! i)))
                          [0..<min 3 (length category_totals)]"
    by (simp add: top_lines_nth length_sorted_reverse min.commute)
  then show "get_monthly_summary w =
           (None, (print_all
                     ([Line (LF # ''--- Monthly Expense Summary ---''),
                       Prompt ''Enter month and year to summarize (e.g., 2025-09): '',
                       Line (LF # ''Summary for '' @ m @ '':''),
                       TotalLine monthly_total,
                       Line (LF # ''--- Summary by Category ---'')]
                      @ map (\<lambda>item. CategoryLine (fst item) (snd item)) category_totals
                      @ [Line (LF # ''--- Top 3 Expense Categories ---'')]
                      @ (if length category_totals < 3
                         then [Line ''Not enough data to determine top 3 categories.'']
                         else [])
                      @ map (\<lambda>i. TopLine (i + 1)
                                   (fst (sorted_reverse snd category_totals ! i))
                                   (snd (sorted_reverse snd category_totals ! i)))
                          [0..<min 3 (length category_totals)])
                     w)\<lparr>stdin := rest\<rparr>)"
    using assms(5)
    by (simp add: get_monthly_summary_report [OF assms(1-4)] report_def top_report_def
        Let_def length_sorted_reverse)
next
  show "mset (sorted_reverse snd category_totals) = mset category_totals"
    by (rule mset_sorted_reverse)
next
  show "sorted_wrt (\<lambda>a b. fle (snd b) (snd a)) (sorted_reverse snd category_totals)"
    using assms(6) by (intro descending_sorted_reverse) (simp add: list_all_iff)
next
  fix v
  show "filter (\<lambda>item. snd item = v) (sorted_reverse snd category_totals) =
        filter (\<lambda>item. snd item = v) category_totals"
    by (rule filter_sorted_reverse)
qed

text \<open>The example of the specification.\<close>

lemma top_categories_spec_example:
  "get_monthly_summary
     \<lparr>csv_file = Some (csv_writerow FIELD_NAMES @
                        csv_writerow [''2025-09-01'', ''Food'', ''10.0'', ''a''] @
                        csv_writerow [''2025-09-02'', ''Transport'', ''5.0'', ''b''] @
                        csv_writerow [''2025-10-01'', ''Food'', ''99.0'', ''c'']),
      stdin = [''2025-09''], stdout = []\<rparr> =
   (None,
    \<lparr>csv_file = Some (csv_writerow FIELD_NAMES @
                        csv_writerow [''2025-09-01'', ''Food'', ''10.0'', ''a''] @
                        csv_writerow [''2025-09-02'', ''Transport'', ''5.0'', ''b''] @
                        csv_writerow [''2025-10-01'', ''Food'', ''99.0'', ''c'']),
     stdin = [],
     stdout = [Line (LF # ''--- Monthly Expense Summary ---''),
               Prompt ''Enter month and year to summarize (e.g., 2025-09): '',
               Line (LF # ''Summary for 2025-09:''),
               TotalLine (Finite 15),
               Line (LF # ''--- Summary by Category ---''),
               CategoryLine (Some ''Food'') (Finite 10),
               CategoryLine (Some ''Transport'') (Finite 5),
               Line (LF # ''--- Top 3 Expense Categories ---''),
               Line ''Not enough data to determine top 3 categories.'',
               TopLine 1 (Some ''Food'') (Finite 10),
               TopLine 2 (Some ''Transport'') (Finite 5)]\<rparr>)"
proof -
  let ?w = "\<lparr>csv_file = Some (csv_writerow FIELD_NAMES @
                        csv_writerow [''2025-09-01'', ''Food'', ''10.0'', ''a''] @
                        csv_writerow [''2025-09-02'', ''Transport'', ''5.0'', ''b''] @
                        csv_writerow [''2025-10-01'', ''Food'', ''99.0'', ''c'']),
      stdin = [''2025-09''], stdout = []\<rparr>"
  let ?recs = "[\<lparr>row_date = ''2025-09-01'', row_category = ''Food'', row_amount = ''10.0'',
                 row_description = ''a''\<rparr>,
                \<lparr>row_date = ''2025-09-02'', row_category = ''Transport'', row_amount = ''5.0'',
                 row_description = ''b''\<rparr>,
                \<lparr>row_date = ''2025-10-01'', row_category = ''Food'', row_amount = ''99.0'',
                 row_description = ''c''\<rparr>]"
  have 1: "\<not> no_data ?w" by (simp add: no_data_def csv_writerow_def)
  have 2: "stdin ?w = ''2025-09'' # []" by simp
  have 3: "strptime_Ym ''2025-09'' \<noteq> None" by (simp add: date_eval float_eval)
  have r: "open_reader ?w = (map as_dict ?recs, None)"
    by (simp add: csv_eval as_dict_def as_list_def)
  have f: "float_of_str ''10.0'' = Some (Finite 10)" "float_of_str ''5.0'' = Some (Finite 5)"
    by (simp_all add: float_eval)
  have m: "in_month ''2025-09'' ?recs = take 2 ?recs"
    by (simp add: in_month_def startswith_def)
  have "list_all has_amount (in_month ''2025-09'' ?recs)"
    unfolding m by (simp add: has_amount_def f)
  from monthly_totals_grouped [OF this]
  have 4: "monthly_totals ''2025-09'' (open_reader ?w) =
             Inr (Finite 15, [(Some ''Food'', Finite 10), (Some ''Transport'', Finite 5)])"
    unfolding r m
    by (simp add: sum_amounts_def amount_of_def by_category_def first_seen_def f)
  have 5: "\<not> feq (Finite 15) (Finite 0)" by simp
  have 6: "list_all (\<lambda>item. snd item \<noteq> NaN)
             [(Some ''Food'', Finite 10), (Some ''Transport'', Finite 5)]"
    by simp
  show ?thesis
    using top_categories_ranked [OF 1 2 3 4 5 6]
    by (simp add: print_all_def sorted_reverse_def sort_stable_def)
qed

text \<open>
  C6. A row with the amount \<^verbatim>\<open>nan\<close>, which \<^verbatim>\<open>add_expense\<close> writes when \<^verbatim>\<open>nan\<close> is
  typed, breaks the ranking. With the categories A 1.0, B \<^verbatim>\<open>nan\<close>, C 2.0 in one month
  the grand total is \<^verbatim>\<open>nan\<close>, which is not zero, so the report is printed, and no
  comparison with \<^verbatim>\<open>nan\<close> holds, so the sort leaves the order as it is: A is listed
  first and C third, although the subtotal of A is less than that of C. (On this list
  CPython's sort finds one run and makes the same comparisons.)
\<close>

theorem nan_subtotal_breaks_ranking:
  "get_monthly_summary
     \<lparr>csv_file = Some (csv_writerow FIELD_NAMES @
                        csv_writerow [''2025-09-01'', ''A'', ''1.0'', ''a''] @
                        csv_writerow [''2025-09-02'', ''B'', ''nan'', ''b''] @
                        csv_writerow [''2025-09-03'', ''C'', ''2.0'', ''c'']),
      stdin = [''2025-09''], stdout = []\<rparr> =
   (None,
    \<lparr>csv_file = Some (csv_writerow FIELD_NAMES @
                        csv_writerow [''2025-09-01'', ''A'', ''1.0'', ''a''] @
                        csv_writerow [''2025-09-02'', ''B'', ''nan'', ''b''] @
                        csv_writerow [''2025-09-03'', ''C'', ''2.0'', ''c'']),
     stdin = [],
     stdout = [Line (LF # ''--- Monthly Expense Summary ---''),
               Prompt ''Enter month and year to summarize (e.g., 2025-09): '',
               Line (LF # ''Summary for 2025-09:''),
               TotalLine NaN,
               Line (LF # ''--- Summary by Category ---''),
               CategoryLine (Some ''A'') (Finite 1),
               CategoryLine (Some ''B'') NaN,
               CategoryLine (Some ''C'') (Finite 2),
               Line (LF # ''--- Top 3 Expense Categories ---''),
               TopLine 1 (Some ''A'') (Finite 1),
               TopLine 2 (Some ''B'') NaN,
               TopLine 3 (Some ''C'') (Finite 2)]\<rparr>) \<and>
   flt (Finite 1) (Finite 2)"
proof
  let ?w = "\<lparr>csv_file = Some (csv_writerow FIELD_NAMES @
                        csv_writerow [''2025-09-01'', ''A'', ''1.0'', ''a''] @
                        csv_writerow [''2025-09-02'', ''B'', ''nan'', ''b''] @
                        csv_writerow [''2025-09-03'', ''C'', ''2.0'', ''c'']),
      stdin = [''2025-09''], stdout = []\<rparr>"
  let ?recs = "[\<lparr>row_date = ''2025-09-01'', row_category = ''A'', row_amount = ''1.0'',
                 row_description = ''a''\<rparr>,
                \<lparr>row_date = ''2025-09-02'', row_category = ''B'', row_amount = ''nan'',
                 row_description = ''b''\<rparr>,
                \<lparr>row_date = ''2025-09-03'', row_category = ''C'', row_amount = ''2.0'',
                 row_description = ''c''\<rparr>]"
  have 1: "\<not> no_data ?w" by (simp add: no_data_def csv_writerow_def)
  have 2: "stdin ?w = ''2025-09'' # []" by simp
  have 3: "strptime_Ym ''2025-09'' \<noteq> None" by (simp add: date_eval float_eval)
  have r: "open_reader ?w = (map as_dict ?recs, None)"
    by (simp add: csv_eval as_dict_def as_list_def)
  have f: "float_of_str ''1.0'' = Some (Finite 1)" "float_of_str ''nan'' = Some NaN"
    "float_of_str ''2.0'' = Some (Finite 2)"
    by (simp_all add: float_eval)
  have m: "in_month ''2025-09'' ?recs = ?recs"
    by (simp add: in_month_def startswith_def)
  have "list_all has_amount (in_month ''2025-09'' ?recs)"
    unfolding m by (simp add: has_amount_def f)
  from monthly_totals_grouped [OF this]
  have 4: "monthly_totals ''2025-09'' (open_reader ?w) =
             Inr (NaN, [(Some ''A'', Finite 1), (Some ''B'', NaN), (Some ''C'', Finite 2)])"
    unfolding r m
    by (simp add: sum_amounts_def amount_of_def by_category_def first_seen_def f)
  show "get_monthly_summary ?w =
   (None,
    \<lparr>csv_file = Some (csv_writerow FIELD_NAMES @
                        csv_writerow [''2025-09-01'', ''A'', ''1.0'', ''a''] @
                        csv_writerow [''2025-09-02'', ''B'', ''nan'', ''b''] @
                        csv_writerow [''2025-09-03'', ''C'', ''2.0'', ''c'']),
     stdin = [],
     stdout = [Line (LF # ''--- Monthly Expense Summary ---''),
               Prompt ''Enter month and year to summarize (e.g., 2025-09): '',
               Line (LF # ''Summary for 2025-09:''),
               TotalLine NaN,
               Line (LF # ''--- Summary by Category ---''),
               CategoryLine (Some ''A'') (Finite 1),
               CategoryLine (Some ''B'') NaN,
               CategoryLine (Some ''C'') (Finite 2),
               Line (LF # ''--- Top 3 Expense Categories ---''),
               TopLine 1 (Some ''A'') (Finite 1),
               TopLine 2 (Some ''B'') NaN,
               TopLine 3 (Some ''C'') (Finite 2)]\<rparr>)"
    by (simp add: get_monthly_summary_report [OF 1 2 3 4] report_def top_report_def
        print_all_def sorted_reverse_def sort_stable_def)
next
  show "flt (Finite 1) (Finite 2)" by simp
qed

subsection \<open>Sums of positive amounts\<close>

lemma fadd_positive: "fle (Finite 0) t \<Longrightarrow> flt (Finite 0) a \<Longrightarrow> flt (Finite 0) (fadd t a)"
  by (cases t; cases a) simp_all

lemma foldl_fadd_positive:
  "fle (Finite 0) t \<Longrightarrow> list_all (flt (Finite 0)) as \<Longrightarrow> as \<noteq> [] \<Longrightarrow>
   flt (Finite 0) (foldl fadd t as)"
proof (induction as arbitrary: t)
  case Nil
  then show ?case by simp
next
  case (Cons a as)
  then have p: "flt (Finite 0) (fadd t a)"
    by (simp add: fadd_positive)
  show ?case
  proof (cases "as = []")
    case True
    with p show ?thesis by simp
  next
    case False
    with Cons p show ?thesis by (simp add: flt_fle)
  qed
qed

lemma positive_not_zero: "flt (Finite 0) a \<Longrightarrow> \<not> feq a (Finite 0)"
  by (cases a) simp_all

lemma positive_amount_has: "positive_amount r \<Longrightarrow> has_amount r \<and> flt (Finite 0) (amount_of r)"
  by (auto simp: positive_amount_def has_amount_def amount_of_def split: option.splits)

lemma sum_amounts_zero:
  assumes "list_all positive_amount rs"
  shows "feq (sum_amounts rs) (Finite 0) = (rs = [])"
proof (cases "rs = []")
  case True
  then show ?thesis by (simp add: sum_amounts_def)
next
  case False
  have "list_all (flt (Finite 0)) (map amount_of rs)"
    using assms by (simp add: list_all_iff positive_amount_has)
  then have "flt (Finite 0) (sum_amounts rs)"
    unfolding sum_amounts_def using False by (intro foldl_fadd_positive) simp_all
  with False show ?thesis by (simp add: positive_not_zero)
qed

lemma in_month_prefix: "in_month m recs = filter (\<lambda>r. prefix m (row_date r)) recs"
  by (simp add: in_month_def startswith_def)

text \<open>
  C7. When the month is accepted and \<^verbatim>\<open>float\<close> reads the amount of every record of the
  month, the summary prints \<^verbatim>\<open>No expenses found for <month>.\<close> and nothing after it
  if and only if the grand total, the sum from \<^verbatim>\<open>0.0\<close> of the amounts of the records
  whose date text starts with the month prefix, equals zero. When moreover every stored
  amount is greater than zero, the grand total equals zero if and only if no record has
  a date starting with the prefix.
\<close>

theorem no_expenses_this_month:
  assumes "\<not> no_data w" and "stdin w = m # rest" and "strptime_Ym m \<noteq> None"
    and "open_reader w = (map as_dict recs, None)"
    and "list_all has_amount (filter (\<lambda>r. prefix m (row_date r)) recs)"
  shows "(get_monthly_summary w =
            (None, (print_all
                      [Line (LF # ''--- Monthly Expense Summary ---''),
                       Prompt ''Enter month and year to summarize (e.g., 2025-09): '',
                       Line (''No expenses found for '' @ m @ ''.'')] w)\<lparr>stdin := rest\<rparr>))
          = feq (foldl fadd (Finite 0)
                   (map amount_of (filter (\<lambda>r. prefix m (row_date r)) recs))) (Finite 0)
         \<and> (list_all positive_amount recs \<longrightarrow>
              feq (foldl fadd (Finite 0)
                     (map amount_of (filter (\<lambda>r. prefix m (row_date r)) recs))) (Finite 0)
              = (filter (\<lambda>r. prefix m (row_date r)) recs = []))"
proof
  have "list_all has_amount (in_month m recs)"
    using assms(5) by (simp add: in_month_prefix)
  then have t: "monthly_totals m (open_reader w) =
           Inr (sum_amounts (in_month m recs), by_category (in_month m recs))"
    unfolding assms(4) by (rule monthly_totals_grouped)
  show "(get_monthly_summary w =
            (None, (print_all
                      [Line (LF # ''--- Monthly Expense Summary ---''),
                       Prompt ''Enter month and year to summarize (e.g., 2025-09): '',
                       Line (''No expenses found for '' @ m @ ''.'')] w)\<lparr>stdin := rest\<rparr>))
          = feq (foldl fadd (Finite 0)
                   (map amount_of (filter (\<lambda>r. prefix m (row_date r)) recs))) (Finite 0)"
    by (simp add: get_monthly_summary_report [OF assms(1-3) t] same_prints report_def
        sum_amounts_def in_month_prefix)
next
  show "list_all positive_amount recs \<longrightarrow>
              feq (foldl fadd (Finite 0)
                     (map amount_of (filter (\<lambda>r. prefix m (row_date r)) recs))) (Finite 0)
              = (filter (\<lambda>r. prefix m (row_date r)) recs = [])"
  proof
    assume "list_all positive_amount recs"
    then have "list_all positive_amount (in_month m recs)"
      by (simp add: in_month_def list_all_iff)
    then have "feq (sum_amounts (in_month m recs)) (Finite 0) = (in_month m recs = [])"
      by (rule sum_amounts_zero)
    then show "feq (foldl fadd (Finite 0)
                     (map amount_of (filter (\<lambda>r. prefix m (row_date r)) recs))) (Finite 0)
              = (filter (\<lambda>r. prefix m (row_date r)) recs = [])"
      by (simp add: sum_amounts_def in_month_prefix)
  qed
qed

theorem no_expenses_this_month_witness:
  "get_monthly_summary
     \<lparr>csv_file = Some (csv_writerow FIELD_NAMES @
                        csv_writerow [''2025-09-15'', ''Food'', ''5.5'', ''lunch'']),
      stdin = [''2025-10''], stdout = []\<rparr> =
   (None,
    \<lparr>csv_file = Some (csv_writerow FIELD_NAMES @
                       csv_writerow [''2025-09-15'', ''Food'', ''5.5'', ''lunch'']),
     stdin = [],
     stdout = [Line (LF # ''--- Monthly Expense Summary ---''),
               Prompt ''Enter month and year to summarize (e.g., 2025-09): '',
               Line ''No expenses found for 2025-10.'']\<rparr>) \<and>
   get_monthly_summary
     \<lparr>csv_file = Some (csv_writerow FIELD_NAMES @
                        csv_writerow [''2025-09-15'', ''Food'', ''5.5'', ''lunch'']),
      stdin = [''2025-09''], stdout = []\<rparr> \<noteq>
   (None,
    \<lparr>csv_file = Some (csv_writerow FIELD_NAMES @
                       csv_writerow [''2025-09-15'', ''Food'', ''5.5'', ''lunch'']),
     stdin = [],
     stdout = [Line (LF # ''--- Monthly Expense Summary ---''),
               Prompt ''Enter month and year to summarize (e.g., 2025-09): '',
               Line ''No expenses found for 2025-09.'']\<rparr>) \<and>
   get_monthly_summary
     \<lparr>csv_file = Some (csv_writerow FIELD_NAMES @
                        csv_writerow [''2025-09-15'', ''Food'', ''5.0'', ''lunch''] @
                        csv_writerow [''2025-09-16'', ''Refund'', ''-5.0'', ''back'']),
      stdin = [''2025-09''], stdout = []\<rparr> =
   (None,
    \<lparr>csv_file = Some (csv_writerow FIELD_NAMES @
                        csv_writerow [''2025-09-15'', ''Food'', ''5.0'', ''lunch''] @
                        csv_writerow [''2025-09-16'', ''Refund'', ''-5.0'', ''back'']),
     stdin = [],
     stdout = [Line (LF # ''--- Monthly Expense Summary ---''),
               Prompt ''Enter month and year to summarize (e.g., 2025-09): '',
               Line ''No expenses found for 2025-09.'']\<rparr>)"
proof (intro conjI)
  let ?f = "Some (csv_writerow FIELD_NAMES @
                        csv_writerow [''2025-09-15'', ''Food'', ''5.5'', ''lunch''])"
  let ?recs = "[\<lparr>row_date = ''2025-09-15'', row_category = ''Food'', row_amount = ''5.5'',
                 row_description = ''lunch''\<rparr>]"
  have a: "float_of_str ''5.5'' = Some (Finite (11 / 2))"
    by (simp add: float_eval)
  have nd: "\<not> no_data \<lparr>csv_file = ?f, stdin = i, stdout = []\<rparr>" for i
    by (simp add: no_data_def csv_writerow_def)
  have rd: "open_reader \<lparr>csv_file = ?f, stdin = i, stdout = []\<rparr> = (map as_dict ?recs, None)" for i
    by (simp add: csv_eval as_dict_def as_list_def)
  have m10: "strptime_Ym ''2025-10'' \<noteq> None" and m09: "strptime_Ym ''2025-09'' \<noteq> None"
    by (simp_all add: date_eval float_eval)
  have h10: "list_all has_amount (filter (\<lambda>r. prefix ''2025-10'' (row_date r)) ?recs)"
    by simp
  have h09: "list_all has_amount (filter (\<lambda>r. prefix ''2025-09'' (row_date r)) ?recs)"
    by (simp add: has_amount_def a)
  show "get_monthly_summary \<lparr>csv_file = ?f, stdin = [''2025-10''], stdout = []\<rparr> =
   (None, \<lparr>csv_file = ?f, stdin = [],
     stdout = [Line (LF # ''--- Monthly Expense Summary ---''),
               Prompt ''Enter month and year to summarize (e.g., 2025-09): '',
               Line ''No expenses found for 2025-10.'']\<rparr>)"
  proof -
    have s: "stdin \<lparr>csv_file = ?f, stdin = [''2025-10''], stdout = []\<rparr> = ''2025-10'' # []"
      by simp
    show ?thesis
      using no_expenses_this_month [OF nd s m10 rd h10]
      by (simp add: print_all_def)
  qed
  show "get_monthly_summary \<lparr>csv_file = ?f, stdin = [''2025-09''], stdout = []\<rparr> \<noteq>
   (None, \<lparr>csv_file = ?f, stdin = [],
     stdout = [Line (LF # ''--- Monthly Expense Summary ---''),
               Prompt ''Enter month and year to summarize (e.g., 2025-09): '',
               Line ''No expenses found for 2025-09.'']\<rparr>)"
  proof -
    have s: "stdin \<lparr>csv_file = ?f, stdin = [''2025-09''], stdout = []\<rparr> = ''2025-09'' # []"
      by simp
    show ?thesis
      using no_expenses_this_month [OF nd s m09 rd h09]
      by (simp add: print_all_def amount_of_def a)
  qed
next
  let ?f = "Some (csv_writerow FIELD_NAMES @
                        csv_writerow [''2025-09-15'', ''Food'', ''5.0'', ''lunch''] @
                        csv_writerow [''2025-09-16'', ''Refund'', ''-5.0'', ''back''])"
  let ?recs = "[\<lparr>row_date = ''2025-09-15'', row_category = ''Food'', row_amount = ''5.0'',
                 row_description = ''lunch''\<rparr>,
                \<lparr>row_date = ''2025-09-16'', row_category = ''Refund'', row_amount = ''-5.0'',
                 row_description = ''back''\<rparr>]"
  have a: "float_of_str ''5.0'' = Some (Finite 5)" "float_of_str ''-5.0'' = Some (Finite (- 5))"
    by (simp_all add: float_eval)
  have nd: "\<not> no_data \<lparr>csv_file = ?f, stdin = [''2025-09''], stdout = []\<rparr>"
    by (simp add: no_data_def csv_writerow_def)
  have rd: "open_reader \<lparr>csv_file = ?f, stdin = [''2025-09''], stdout = []\<rparr> =
              (map as_dict ?recs, None)"
    by (simp add: csv_eval as_dict_def as_list_def)
  have m09: "strptime_Ym ''2025-09'' \<noteq> None"
    by (simp add: date_eval float_eval)
  have h09: "list_all has_amount (filter (\<lambda>r. prefix ''2025-09'' (row_date r)) ?recs)"
    by (simp add: has_amount_def a)
  show "get_monthly_summary \<lparr>csv_file = ?f, stdin = [''2025-09''], stdout = []\<rparr> =
   (None, \<lparr>csv_file = ?f, stdin = [],
     stdout = [Line (LF # ''--- Monthly Expense Summary ---''),
               Prompt ''Enter month and year to summarize (e.g., 2025-09): '',
               Line ''No expenses found for 2025-09.'']\<rparr>)"
  proof -
    have s: "stdin \<lparr>csv_file = ?f, stdin = [''2025-09''], stdout = []\<rparr> = ''2025-09'' # []"
      by simp
    show ?thesis
      using no_expenses_this_month [OF nd s m09 rd h09]
      by (simp add: print_all_def amount_of_def a)
  qed
qed

subsection \<open>Round trip through the file\<close>

text \<open>Lines of a written file.\<close>

lemma universal_newlines_plain:
  "c \<noteq> CR \<Longrightarrow> universal_newlines (c # s) = c # universal_newlines s"
  by (cases s) simp_all

lemma universal_newlines_CRLF:
  "CR \<notin> set a \<Longrightarrow> universal_newlines (a @ CR # LF # s) = a @ LF # universal_newlines s"
  by (induction a) (auto simp: universal_newlines_plain)

lemma lines_from_LF:
  "LF \<notin> set a \<Longrightarrow> lines_from cur (a @ LF # s) = (cur @ a @ [LF]) # lines_from [] s"
  by (induction a arbitrary: cur) auto

lemma file_lines_terminated:
  assumes "CR \<notin> set a" and "LF \<notin> set a"
  shows "file_lines (a @ lineterminator @ s) = (a @ [LF]) # file_lines s"
  using assms
  by (simp add: file_lines_def lineterminator_def universal_newlines_CRLF lines_from_LF)

text \<open>What the writer puts on a line.\<close>

lemma set_join_append: "set (join_append f) \<subseteq> insert quotechar (set f)"
  by (auto simp: join_append_def split: if_splits)

lemma set_join_fields:
  "set (join_fields row) \<subseteq> insert quotechar (insert delimiter (\<Union> (set ` set row)))"
proof (induction row rule: join_fields.induct)
  case 1
  show ?case by simp
next
  case (2 f)
  show ?case using set_join_append [of f] by auto
next
  case (3 f g fs)
  then show ?case using set_join_append [of f] by auto
qed

lemma line_text_set: "line_text f \<Longrightarrow> CR \<notin> set f \<and> LF \<notin> set f"
  by (auto simp: line_text_def list_ex_iff)

lemma join_fields_no_break:
  assumes "list_all line_text row"
  shows "CR \<notin> set (join_fields row) \<and> LF \<notin> set (join_fields row)"
proof -
  have "CR \<notin> \<Union> (set ` set row)" "LF \<notin> \<Union> (set ` set row)"
    using assms by (auto simp: list_all_iff dest: line_text_set)
  then show ?thesis
    using set_join_fields [of row] by auto
qed

text \<open>The reader on a written line.\<close>

lemma process_line_append:
  "process_line s (a @ b) =
     (case process_line s a of Inl e \<Rightarrow> Inl e | Inr s' \<Rightarrow> process_line s' b)"
  by (induction a arbitrary: s) (simp_all split: sum.splits)

lemma field_limit_pos: "0 < field_limit"
  by (simp add: field_limit_def)

lemma unquoted_chars:
  assumes "\<not> list_ex needs_quoting f" and "length b + length f \<le> field_limit"
  shows "process_line \<lparr>r_state = IN_FIELD, r_fields = fs, r_field = b\<rparr> f =
           Inr \<lparr>r_state = IN_FIELD, r_fields = fs, r_field = b @ f\<rparr>"
  using assms
proof (induction f arbitrary: b)
  case Nil
  show ?case by simp
next
  case (Cons c f)
  from Cons.prems have c: "c \<noteq> delimiter" "c \<noteq> quotechar" "c \<noteq> CR" "c \<noteq> LF"
    by (auto simp: needs_quoting_def lineterminator_def)
  from Cons.prems have l: "\<not> field_limit \<le> length b"
    by simp
  have "parse_process_char \<lparr>r_state = IN_FIELD, r_fields = fs, r_field = b\<rparr> (Some c) =
          Inr \<lparr>r_state = IN_FIELD, r_fields = fs, r_field = b @ [c]\<rparr>"
    using c l by (simp add: parse_process_char_def parse_add_char_def)
  moreover have "process_line \<lparr>r_state = IN_FIELD, r_fields = fs, r_field = b @ [c]\<rparr> f =
          Inr \<lparr>r_state = IN_FIELD, r_fields = fs, r_field = (b @ [c]) @ f\<rparr>"
    using Cons.prems by (intro Cons.IH) simp_all
  ultimately show ?case by simp
qed

lemma quoted_chars:
  assumes "length b + length f \<le> field_limit"
  shows "process_line \<lparr>r_state = IN_QUOTED_FIELD, r_fields = fs, r_field = b\<rparr>
           (concat (map (\<lambda>c. if c = quotechar then [quotechar, c] else [c]) f)) =
         Inr \<lparr>r_state = IN_QUOTED_FIELD, r_fields = fs, r_field = b @ f\<rparr>"
  using assms
proof (induction f arbitrary: b)
  case Nil
  show ?case by simp
next
  case (Cons c f)
  from Cons.prems have l: "\<not> field_limit \<le> length b"
    by simp
  have step: "process_line \<lparr>r_state = IN_QUOTED_FIELD, r_fields = fs, r_field = b\<rparr>
           ((if c = quotechar then [quotechar, c] else [c]) @ rest) =
         process_line \<lparr>r_state = IN_QUOTED_FIELD, r_fields = fs, r_field = b @ [c]\<rparr> rest"
    for rest
    using l by (simp add: parse_process_char_def parse_add_char_def add_char_then_def)
  have "process_line \<lparr>r_state = IN_QUOTED_FIELD, r_fields = fs, r_field = b @ [c]\<rparr>
           (concat (map (\<lambda>c. if c = quotechar then [quotechar, c] else [c]) f)) =
          Inr \<lparr>r_state = IN_QUOTED_FIELD, r_fields = fs, r_field = (b @ [c]) @ f\<rparr>"
    using Cons.prems by (intro Cons.IH) simp_all
  then show ?case
    using step [of "concat (map (\<lambda>c. if c = quotechar then [quotechar, c] else [c]) f)"]
    by simp
qed

text \<open>A field and the character after it, read from the start of a field.\<close>

lemma field_then:
  assumes "line_text f"
  shows "process_line \<lparr>r_state = START_FIELD, r_fields = fs, r_field = []\<rparr>
           (join_append f @ [delimiter]) =
         Inr \<lparr>r_state = START_FIELD, r_fields = fs @ [f], r_field = []\<rparr>"
    and "process_line \<lparr>r_state = START_FIELD, r_fields = fs, r_field = []\<rparr>
           (join_append f @ [LF]) =
         Inr \<lparr>r_state = EAT_CRNL, r_fields = fs @ [f], r_field = []\<rparr>"
proof -
  from assms have len: "length f \<le> field_limit"
    by (simp add: line_text_def)
  have both: "process_line \<lparr>r_state = START_FIELD, r_fields = fs, r_field = []\<rparr>
           (join_append f @ [t]) =
         Inr \<lparr>r_state = (if t = delimiter then START_FIELD else EAT_CRNL),
              r_fields = fs @ [f], r_field = []\<rparr>"
    if t: "t = delimiter \<or> t = LF" for t
  proof (cases "list_ex needs_quoting f")
    case True
    have "process_line \<lparr>r_state = IN_QUOTED_FIELD, r_fields = fs, r_field = []\<rparr>
           (concat (map (\<lambda>c. if c = quotechar then [quotechar, c] else [c]) f)) =
         Inr \<lparr>r_state = IN_QUOTED_FIELD, r_fields = fs, r_field = [] @ f\<rparr>"
      using len by (intro quoted_chars) simp
    then show ?thesis
      using True t
      by (auto simp: join_append_def process_line_append parse_process_char_def
          start_field_def parse_save_field_def)
  next
    case False
    show ?thesis
    proof (cases f)
      case Nil
      then show ?thesis
        using t by (auto simp: join_append_def parse_process_char_def start_field_def
            parse_save_field_def)
    next
      case (Cons c f')
      from False Cons have c: "c \<noteq> delimiter" "c \<noteq> quotechar" "c \<noteq> CR" "c \<noteq> LF"
        and f': "\<not> list_ex needs_quoting f'"
        by (auto simp: needs_quoting_def lineterminator_def)
      have "process_line \<lparr>r_state = IN_FIELD, r_fields = fs, r_field = [c]\<rparr> f' =
          Inr \<lparr>r_state = IN_FIELD, r_fields = fs, r_field = [c] @ f'\<rparr>"
        using f' len Cons by (intro unquoted_chars) simp_all
      then show ?thesis
        using False Cons c t field_limit_pos
        by (auto simp: join_append_def process_line_append parse_process_char_def
            start_field_def parse_save_field_def add_char_then_def parse_add_char_def)
    qed
  qed
  show "process_line \<lparr>r_state = START_FIELD, r_fields = fs, r_field = []\<rparr>
           (join_append f @ [delimiter]) =
         Inr \<lparr>r_state = START_FIELD, r_fields = fs @ [f], r_field = []\<rparr>"
    using both [of delimiter] by simp
  show "process_line \<lparr>r_state = START_FIELD, r_fields = fs, r_field = []\<rparr>
           (join_append f @ [LF]) =
         Inr \<lparr>r_state = EAT_CRNL, r_fields = fs @ [f], r_field = []\<rparr>"
    using both [of LF] by simp
qed

lemma fields_then_LF:
  assumes "list_all line_text (f # row)"
  shows "process_line \<lparr>r_state = START_FIELD, r_fields = fs, r_field = []\<rparr>
           (join_fields (f # row) @ [LF]) =
         Inr \<lparr>r_state = EAT_CRNL, r_fields = fs @ f # row, r_field = []\<rparr>"
  using assms
proof (induction row arbitrary: f fs)
  case Nil
  then show ?case by (simp add: field_then(2))
next
  case (Cons g row)
  have "process_line \<lparr>r_state = START_FIELD, r_fields = fs, r_field = []\<rparr>
           ((join_append f @ [delimiter]) @ (join_fields (g # row) @ [LF])) =
        process_line \<lparr>r_state = START_FIELD, r_fields = fs @ [f], r_field = []\<rparr>
           (join_fields (g # row) @ [LF])"
    using Cons.prems by (subst process_line_append) (simp add: field_then(1))
  also have "\<dots> = Inr \<lparr>r_state = EAT_CRNL, r_fields = (fs @ [f]) @ g # row, r_field = []\<rparr>"
    using Cons.prems by (intro Cons.IH) simp
  finally show ?case by simp
qed

text \<open>At the start of a record the first character is read as at the start of a field,
  unless it ends the line.\<close>

lemma start_of_record:
  assumes "x \<noteq> []" and "hd x \<noteq> LF" and "hd x \<noteq> CR"
  shows "process_line \<lparr>r_state = START_RECORD, r_fields = fs, r_field = b\<rparr> x =
         process_line \<lparr>r_state = START_FIELD, r_fields = fs, r_field = b\<rparr> x"
  using assms by (cases x) (simp_all add: parse_process_char_def)

lemma hd_written_line:
  assumes "list_all line_text (f # g # row)"
  shows "hd (join_fields (f # g # row) @ [LF]) \<noteq> LF \<and> hd (join_fields (f # g # row) @ [LF]) \<noteq> CR"
proof -
  have "hd (join_fields (f # g # row) @ [LF]) \<in> set (join_append f @ [delimiter])"
    by (cases "join_append f") simp_all
  moreover have "CR \<notin> set (join_append f)" "LF \<notin> set (join_append f)"
    using assms set_join_append [of f] by (auto dest: line_text_set)
  ultimately show ?thesis by auto
qed

lemma written_line:
  assumes "list_all line_text (f # g # row)"
  shows "process_line parse_reset (join_fields (f # g # row) @ [LF]) =
           Inr \<lparr>r_state = EAT_CRNL, r_fields = f # g # row, r_field = []\<rparr>"
proof -
  have "process_line parse_reset (join_fields (f # g # row) @ [LF]) =
        process_line \<lparr>r_state = START_FIELD, r_fields = [], r_field = []\<rparr>
          (join_fields (f # g # row) @ [LF])"
    unfolding parse_reset_def using hd_written_line [OF assms]
    by (intro start_of_record) simp_all
  also have "\<dots> = Inr \<lparr>r_state = EAT_CRNL, r_fields = [] @ f # g # row, r_field = []\<rparr>"
    using assms by (rule fields_then_LF)
  finally show ?thesis by simp
qed

lemma reader_rows_written:
  assumes "list_all wide_row rows"
  shows "reader_rows parse_reset (map (\<lambda>row. join_fields row @ [LF]) rows) = (rows, None)"
  using assms
proof (induction rows)
  case Nil
  show ?case by (simp add: parse_reset_def)
next
  case (Cons row rows)
  from Cons.prems obtain f g r where row: "row = f # g # r" and lt: "list_all line_text (f # g # r)"
    by (cases row; cases "tl row") (auto simp: wide_row_def)
  have "process_line parse_reset (join_fields row @ [LF]) =
          Inr \<lparr>r_state = EAT_CRNL, r_fields = row, r_field = []\<rparr>"
    unfolding row using lt by (rule written_line)
  moreover have "reader_rows parse_reset (map (\<lambda>row. join_fields row @ [LF]) rows) = (rows, None)"
    using Cons by simp
  ultimately show ?case
    by (simp add: parse_process_char_def)
qed

lemma file_lines_written:
  assumes "list_all wide_row rows"
  shows "file_lines (concat (map csv_writerow rows)) = map (\<lambda>row. join_fields row @ [LF]) rows"
  using assms
proof (induction rows)
  case Nil
  show ?case by (simp add: file_lines_def)
next
  case (Cons row rows)
  from Cons.prems have w: "2 \<le> length row" "list_all line_text row"
    by (simp_all add: wide_row_def)
  then have "row \<noteq> [[]]" by auto
  then have "csv_writerow row = join_fields row @ lineterminator"
    by (simp add: csv_writerow_def)
  moreover have "CR \<notin> set (join_fields row)" "LF \<notin> set (join_fields row)"
    using join_fields_no_break [OF w(2)] by simp_all
  ultimately show ?case
    using Cons by (simp add: file_lines_terminated)
qed

lemma csv_reader_written:
  "list_all wide_row rows \<Longrightarrow> csv_reader (concat (map csv_writerow rows)) = (rows, None)"
  by (simp add: csv_reader_def file_lines_written reader_rows_written)

text \<open>The store after appends.\<close>

lemma csv_file_appends:
  "csv_file w = Some t \<Longrightarrow>
   csv_file (foldl (\<lambda>w e. append_file (g e) w) w es) = Some (t @ concat (map g es))"
  by (induction es arbitrary: w t) (simp_all add: append_file_def)

lemma csv_file_append_all:
  assumes "csv_file w = None \<or> csv_file w = Some (csv_writerow FIELD_NAMES)"
  shows "csv_file (append_all str_float es w) =
           Some (concat (map csv_writerow
                          (FIELD_NAMES # map (\<lambda>e. as_list (written str_float e)) es)))"
proof -
  have "csv_file (init_file w) = Some (csv_writerow FIELD_NAMES)"
    using assms by (auto simp: init_file_def print_def)
  moreover have "DictWriter_writerow str_float =
                   (\<lambda>e. csv_writerow (as_list (written str_float e)))"
    by (rule ext) (simp add: DictWriter_writerow_def as_list_def written_def)
  ultimately show ?thesis
    using csv_file_appends [of "init_file w" _ "DictWriter_writerow str_float" es]
    by (simp add: append_all_def comp_def)
qed

lemma wide_row_FIELD_NAMES: "wide_row FIELD_NAMES"
  by (simp add: wide_row_def FIELD_NAMES_def line_text_def field_limit_def)

lemma wide_row_written: "storable str_float e \<Longrightarrow> wide_row (as_list (written str_float e))"
  by (simp add: wide_row_def storable_def as_list_def written_def)

lemma open_reader_append_all:
  assumes "csv_file w = None \<or> csv_file w = Some (csv_writerow FIELD_NAMES)"
    and "list_all (storable str_float) es"
  shows "open_reader (append_all str_float es w) =
           (map (\<lambda>e. as_dict (written str_float e)) es, None)"
proof -
  let ?rows = "map (\<lambda>e. as_list (written str_float e)) es"
  have w: "list_all wide_row (FIELD_NAMES # ?rows)"
    using assms(2) by (simp add: wide_row_FIELD_NAMES list_all_iff wide_row_written)
  have ne: "filter (\<lambda>r. r \<noteq> []) ?rows = ?rows"
    by (simp add: as_list_def)
  have "open_reader (append_all str_float es w) = DictReader (FIELD_NAMES # ?rows, None)"
    unfolding open_reader_def csv_file_append_all [OF assms(1)]
    using csv_reader_written [OF w] by simp
  also have "\<dots> = (map (dict_row FIELD_NAMES) ?rows, None)"
    by (simp add: DictReader_def ne)
  finally show ?thesis
    by (simp add: as_dict_def comp_def)
qed

text \<open>A field too long for the reader.\<close>

lemma overlong_chars:
  assumes "\<not> needs_quoting x" and "length b \<le> field_limit" and "field_limit < length b + n"
  shows "process_line \<lparr>r_state = IN_FIELD, r_fields = fs, r_field = b\<rparr> (replicate n x @ rest) =
           Inl CsvError"
  using assms(2,3)
proof (induction n arbitrary: b)
  case 0
  then show ?case by simp
next
  case (Suc n)
  from assms(1) have x: "x \<noteq> delimiter" "x \<noteq> quotechar" "x \<noteq> CR" "x \<noteq> LF"
    by (auto simp: needs_quoting_def lineterminator_def)
  show ?case
  proof (cases "field_limit \<le> length b")
    case True
    then show ?thesis
      using x by (simp add: parse_process_char_def parse_add_char_def)
  next
    case False
    then have "process_line \<lparr>r_state = IN_FIELD, r_fields = fs, r_field = b @ [x]\<rparr>
                 (replicate n x @ rest) = Inl CsvError"
      using Suc.prems by (intro Suc.IH) simp_all
    then show ?thesis
      using x False by (simp add: parse_process_char_def parse_add_char_def)
  qed
qed

lemma overlong_field:
  assumes "\<not> needs_quoting x" and "field_limit < n"
  shows "process_line \<lparr>r_state = START_FIELD, r_fields = fs, r_field = []\<rparr>
           (join_append (replicate n x) @ rest) = Inl CsvError"
proof -
  from assms(2) obtain k where n: "n = Suc k"
    by (cases n) simp_all
  from assms(1) have x: "x \<noteq> delimiter" "x \<noteq> quotechar" "x \<noteq> CR" "x \<noteq> LF"
    by (auto simp: needs_quoting_def lineterminator_def)
  have q: "join_append (x # replicate k x) = x # replicate k x"
    using assms(1) by (auto simp: join_append_def list_ex_iff)
  have "process_line \<lparr>r_state = IN_FIELD, r_fields = fs, r_field = [x]\<rparr>
          (replicate k x @ rest) = Inl CsvError"
    using assms n field_limit_pos by (intro overlong_chars) simp_all
  then show ?thesis
    unfolding n using x field_limit_pos
    by (simp add: q parse_process_char_def start_field_def add_char_then_def
        parse_add_char_def)
qed

lemma overlong_line:
  assumes "line_text d" and "line_text c" and "line_text a"
    and "\<not> needs_quoting x" and "field_limit < n"
  shows "process_line parse_reset (join_fields [d, c, a, replicate n x] @ [LF]) = Inl CsvError"
proof -
  have nb: "CR \<notin> set (join_append d)" "LF \<notin> set (join_append d)"
    using assms(1) set_join_append [of d] by (auto dest: line_text_set)
  have "hd (join_fields [d, c, a, replicate n x] @ [LF]) \<in> set (join_append d @ [delimiter])"
    by (cases "join_append d") simp_all
  with nb have hd: "hd (join_fields [d, c, a, replicate n x] @ [LF]) \<noteq> LF"
    "hd (join_fields [d, c, a, replicate n x] @ [LF]) \<noteq> CR"
    by auto
  have "process_line parse_reset (join_fields [d, c, a, replicate n x] @ [LF]) =
        process_line \<lparr>r_state = START_FIELD, r_fields = [], r_field = []\<rparr>
          (join_fields [d, c, a, replicate n x] @ [LF])"
    unfolding parse_reset_def using hd by (intro start_of_record) simp_all
  also have "\<dots> = process_line \<lparr>r_state = START_FIELD, r_fields = [], r_field = []\<rparr>
          ((join_append d @ [delimiter]) @ (join_append c @ [delimiter]) @
           (join_append a @ [delimiter]) @ join_append (replicate n x) @ [LF])"
    by simp
  also have "\<dots> = process_line \<lparr>r_state = START_FIELD, r_fields = [d], r_field = []\<rparr>
          ((join_append c @ [delimiter]) @
           (join_append a @ [delimiter]) @ join_append (replicate n x) @ [LF])"
    by (subst process_line_append) (simp add: field_then(1) [OF assms(1)])
  also have "\<dots> = process_line \<lparr>r_state = START_FIELD, r_fields = [d, c], r_field = []\<rparr>
          ((join_append a @ [delimiter]) @ join_append (replicate n x) @ [LF])"
    by (subst process_line_append) (simp add: field_then(1) [OF assms(2)])
  also have "\<dots> = process_line \<lparr>r_state = START_FIELD, r_fields = [d, c, a], r_field = []\<rparr>
          (join_append (replicate n x) @ [LF])"
    by (subst process_line_append) (simp add: field_then(1) [OF assms(3)])
  also have "\<dots> = Inl CsvError"
    using assms(4,5) by (rule overlong_field)
  finally show ?thesis .
qed

lemma overlong_record:
  assumes s: "str_float v = a"
    and "line_text d" and "line_text c" and "line_text a"
    and "\<not> needs_quoting x" and "field_limit < n"
  shows "open_reader
           (append_all str_float
              [\<lparr>Date = d, Category = c, Amount = v, Description = replicate n x\<rparr>]
              \<lparr>csv_file = None, stdin = i, stdout = out\<rparr>) = ([], Some CsvError)"
proof -
  let ?row = "[d, c, a, replicate n x]"
  from assms(5) have x: "x \<noteq> CR" "x \<noteq> LF"
    by (auto simp: needs_quoting_def lineterminator_def)
  have fl: "csv_file (append_all str_float
              [\<lparr>Date = d, Category = c, Amount = v, Description = replicate n x\<rparr>]
              \<lparr>csv_file = None, stdin = i, stdout = out\<rparr>) =
        Some (csv_writerow FIELD_NAMES @ join_fields ?row @ lineterminator @ [])"
    by (simp add: append_all_def init_file_def print_def append_file_def
        DictWriter_writerow_def s csv_writerow_def [of ?row])
  have "\<Union> (set ` set ?row) \<subseteq> set d \<union> set c \<union> set a \<union> {x}"
    by auto
  with set_join_fields [of ?row]
  have "set (join_fields ?row) \<subseteq> insert quotechar (insert delimiter (set d \<union> set c \<union> set a \<union> {x}))"
    by blast
  with assms(2-4) x have nb: "CR \<notin> set (join_fields ?row)" "LF \<notin> set (join_fields ?row)"
    by (auto dest: line_text_set)
  have hw: "list_all wide_row [FIELD_NAMES]"
    by (simp add: wide_row_FIELD_NAMES)
  have h: "csv_writerow FIELD_NAMES = join_fields FIELD_NAMES @ lineterminator"
    by (simp add: csv_writerow_def FIELD_NAMES_def)
  have hnb: "CR \<notin> set (join_fields FIELD_NAMES)" "LF \<notin> set (join_fields FIELD_NAMES)"
    using join_fields_no_break [of FIELD_NAMES] wide_row_FIELD_NAMES
    by (simp_all add: wide_row_def)
  have lines: "file_lines (csv_writerow FIELD_NAMES @ join_fields ?row @ lineterminator @ []) =
          [join_fields FIELD_NAMES @ [LF], join_fields ?row @ [LF]]"
    unfolding h append_assoc
    by (simp only: file_lines_terminated [OF hnb] file_lines_terminated [OF nb])
       (simp add: file_lines_def)
  have head: "process_line parse_reset (join_fields FIELD_NAMES @ [LF]) =
           Inr \<lparr>r_state = EAT_CRNL, r_fields = FIELD_NAMES, r_field = []\<rparr>"
    using wide_row_FIELD_NAMES
    unfolding FIELD_NAMES_def wide_row_def by (intro written_line) simp
  have "csv_reader (csv_writerow FIELD_NAMES @ join_fields ?row @ lineterminator @ []) =
          ([FIELD_NAMES], Some CsvError)"
    unfolding csv_reader_def lines
    by (simp add: head parse_process_char_def overlong_line [OF assms(2-6)]
        del: join_fields.simps)
  then show ?thesis
    by (simp add: open_reader_def fl DictReader_def del: append_Nil2)
qed

text \<open>
  C8 (as amended). Start without a file or with a file that holds the header only, run
  \<^verbatim>\<open>init_file\<close>, and append any number of records, each as \<^verbatim>\<open>add_expense\<close> writes it
  and each with four texts that are single lines of at most 131072 characters. Reading
  the file back through \<^verbatim>\<open>DictReader\<close> raises nothing and yields one row per record,
  in the order of the appends, whose \<^verbatim>\<open>Date\<close>, \<^verbatim>\<open>Category\<close>, \<^verbatim>\<open>Amount\<close> and
  \<^verbatim>\<open>Description\<close> are the texts of that record (the amount as the text \<^verbatim>\<open>str\<close> gave
  for it). After one more such append there is one row more, and the last row holds the
  four texts of the record appended.
\<close>

theorem store_round_trip:
  assumes "csv_file w = None \<or> csv_file w = Some (csv_writerow FIELD_NAMES)"
    and "list_all (storable str_float) es"
    and "storable str_float e"
  shows "snd (open_reader (append_all str_float es w)) = None
         \<and> list_all2
              (\<lambda>r x. r ''Date'' = Some (Some (Date x)) \<and>
                     r ''Category'' = Some (Some (Category x)) \<and>
                     r ''Amount'' = Some (Some (str_float (Amount x))) \<and>
                     r ''Description'' = Some (Some (Description x)))
              (fst (open_reader (append_all str_float es w))) es
         \<and> snd (open_reader (append_file (DictWriter_writerow str_float e)
                               (append_all str_float es w))) = None
         \<and> length (fst (open_reader (append_file (DictWriter_writerow str_float e)
                                      (append_all str_float es w)))) = Suc (length es)
         \<and> last (fst (open_reader (append_file (DictWriter_writerow str_float e)
                                    (append_all str_float es w)))) ''Date'' =
             Some (Some (Date e))
         \<and> last (fst (open_reader (append_file (DictWriter_writerow str_float e)
                                    (append_all str_float es w)))) ''Category'' =
             Some (Some (Category e))
         \<and> last (fst (open_reader (append_file (DictWriter_writerow str_float e)
                                    (append_all str_float es w)))) ''Amount'' =
             Some (Some (str_float (Amount e)))
         \<and> last (fst (open_reader (append_file (DictWriter_writerow str_float e)
                                    (append_all str_float es w)))) ''Description'' =
             Some (Some (Description e))"
proof -
  have 1: "open_reader (append_all str_float es w) =
           (map (\<lambda>e. as_dict (written str_float e)) es, None)"
    using assms(1,2) by (rule open_reader_append_all)
  have "append_file (DictWriter_writerow str_float e) (append_all str_float es w) =
        append_all str_float (es @ [e]) w"
    by (simp add: append_all_def)
  moreover have "open_reader (append_all str_float (es @ [e]) w) =
           (map (\<lambda>e. as_dict (written str_float e)) (es @ [e]), None)"
    using assms by (intro open_reader_append_all) simp_all
  ultimately have 2: "open_reader (append_file (DictWriter_writerow str_float e)
                          (append_all str_float es w)) =
             (map (\<lambda>e. as_dict (written str_float e)) es @ [as_dict (written str_float e)],
              None)"
    by simp
  have 3: "list_all2
              (\<lambda>r x. r ''Date'' = Some (Some (Date x)) \<and>
                     r ''Category'' = Some (Some (Category x)) \<and>
                     r ''Amount'' = Some (Some (str_float (Amount x))) \<and>
                     r ''Description'' = Some (Some (Description x)))
              (map (\<lambda>e. as_dict (written str_float e)) es) es"
    by (simp add: list_all2_map1 list.rel_refl written_def)
  show ?thesis
    unfolding 1 2 using 3 by (simp add: written_def)
qed

theorem store_round_trip_witness:
  "map (\<lambda>r. (r ''Date'', r ''Category'', r ''Amount'', r ''Description''))
     (fst (open_reader
        (append_all (\<lambda>a. ''5.5'')
           [\<lparr>Date = ''2025-09-14'', Category = '''', Amount = Finite (11 / 2),
             Description = ''say \"hi\"''\<rparr>,
            \<lparr>Date = ''2025-09-15'', Category = ''Food'', Amount = Finite (11 / 2),
             Description = ''lunch, big''\<rparr>]
           \<lparr>csv_file = None, stdin = [], stdout = []\<rparr>))) =
   [(Some (Some ''2025-09-14''), Some (Some ''''), Some (Some ''5.5''),
     Some (Some ''say \"hi\"'')),
    (Some (Some ''2025-09-15''), Some (Some ''Food''), Some (Some ''5.5''),
     Some (Some ''lunch, big''))]"
proof -
  let ?e1 = "\<lparr>Date = ''2025-09-14'', Category = '''', Amount = Finite (11 / 2),
             Description = ''say \"hi\"''\<rparr>"
  let ?e2 = "\<lparr>Date = ''2025-09-15'', Category = ''Food'', Amount = Finite (11 / 2),
            Description = ''lunch, big''\<rparr>"
  let ?w = "\<lparr>csv_file = None, stdin = [], stdout = []\<rparr>"
  have 1: "csv_file ?w = None \<or> csv_file ?w = Some (csv_writerow FIELD_NAMES)" by simp
  have 2: "list_all (storable (\<lambda>a. ''5.5'')) [?e1, ?e2]"
    by (simp add: storable_def line_text_def field_limit_def)
  have 3: "storable (\<lambda>a. ''5.5'') ?e2"
    by (simp add: storable_def line_text_def field_limit_def)
  show ?thesis
    using store_round_trip [OF 1 2 3]
    by (auto simp: list_all2_Cons2)
qed

text \<open>
  C8 as it was stated fails: a record with a valid date and amount whose description has
  131073 characters is written, and reading the file back then yields no record and raises
  the reader's error, because the field is larger than \<^verbatim>\<open>csv.field_size_limit()\<close>.
\<close>

theorem long_description_not_read_back:
  "open_reader
     (append_all (\<lambda>a. ''5.5'')
        [\<lparr>Date = ''2025-09-15'', Category = ''Food'', Amount = Finite (11 / 2),
          Description = replicate 131073 (CHR ''x'')\<rparr>]
        \<lparr>csv_file = None, stdin = [], stdout = []\<rparr>) = ([], Some CsvError) \<and>
   strptime_Ymd ''2025-09-15'' = Some (2025, 9, 15) \<and> flt (Finite 0) (Finite (11 / 2))"
proof (intro conjI)
  have 1: "line_text ''2025-09-15''" "line_text ''Food''" "line_text ''5.5''"
    by (simp_all add: line_text_def field_limit_def)
  have 2: "\<not> needs_quoting (CHR ''x'')"
    by (simp add: needs_quoting_def lineterminator_def)
  have 3: "field_limit < 131073"
    by (simp add: field_limit_def)
  have 4: "(\<lambda>a. ''5.5'') (Finite (11 / 2)) = ''5.5''"
    by (rule refl)
  show "open_reader
     (append_all (\<lambda>a. ''5.5'')
        [\<lparr>Date = ''2025-09-15'', Category = ''Food'', Amount = Finite (11 / 2),
          Description = replicate 131073 (CHR ''x'')\<rparr>]
        \<lparr>csv_file = None, stdin = [], stdout = []\<rparr>) = ([], Some CsvError)"
    by (rule overlong_record [OF 4 1 2 3])
next
  show "strptime_Ymd ''2025-09-15'' = Some (2025, 9, 15)"
    by (simp add: date_eval float_eval)
next
  show "flt (Finite 0) (Finite (11 / 2))"
    by simp
qed

end
